theory Spec2Isabelle
  imports Complex_Main "HOL-Library.Word"
begin

section \<open>JavaScript numbers\<close>

text \<open>
  A JavaScript \<^verbatim>\<open>number\<close> is an IEEE double: a finite value, one of the two
  infinities, or NaN. The finite doubles are rational numbers and are embedded in
  \<^typ>\<open>real\<close>. \<^verbatim>\<open>Math.round\<close>, \<^verbatim>\<open>Math.max\<close> and the comparisons are exact on
  doubles, so their models below compute what the engine computes. The sign of zero is
  not modelled (it is not observable through these operations).
\<close>

datatype number = NaN | NegInfinity | Finite real | Infinity

text \<open>The relational operator \<^verbatim>\<open>a < b\<close>: false as soon as one side is NaN.\<close>

fun num_lt :: "number \<Rightarrow> number \<Rightarrow> bool" where
  "num_lt NaN b = False"
| "num_lt a NaN = False"
| "num_lt NegInfinity NegInfinity = False"
| "num_lt NegInfinity b = True"
| "num_lt (Finite x) NegInfinity = False"
| "num_lt (Finite x) (Finite y) = (x < y)"
| "num_lt (Finite x) Infinity = True"
| "num_lt Infinity b = False"

text \<open>\<^verbatim>\<open>a > b\<close> is \<^verbatim>\<open>b < a\<close>.\<close>

definition num_gt :: "number \<Rightarrow> number \<Rightarrow> bool" where
  "num_gt a b = num_lt b a"

text \<open>\<^verbatim>\<open>a >= b\<close>: false as soon as one side is NaN, otherwise \<^verbatim>\<open>!(a < b)\<close>.\<close>

definition num_ge :: "number \<Rightarrow> number \<Rightarrow> bool" where
  "num_ge a b = (a \<noteq> NaN \<and> b \<noteq> NaN \<and> \<not> num_lt a b)"

text \<open>
  \<^verbatim>\<open>Math.round(x)\<close>: the integer closest to \<open>x\<close>, a tie going towards
  \<open>+\<infinity>\<close>, that is \<open>\<lfloor>x + 1/2\<rfloor>\<close>; NaN and the infinities are returned unchanged.
\<close>

fun Math_round :: "number \<Rightarrow> number" where
  "Math_round (Finite x) = Finite (of_int \<lfloor>x + 1 / 2\<rfloor>)"
| "Math_round n = n"

text \<open>\<^verbatim>\<open>Math.max(a, b)\<close>: NaN if either argument is NaN, the larger one otherwise.\<close>

definition Math_max :: "number \<Rightarrow> number \<Rightarrow> number" where
  "Math_max a b = (if a = NaN \<or> b = NaN then NaN else if num_lt a b then b else a)"







section \<open>Sizes and the drawing surface\<close>

text \<open>\<^verbatim>\<open>type Size = { width: number; height: number }\<close>\<close>

record Size =
  width :: number
  height :: number

datatype RasterFormat = Png | Jpeg

text \<open>The \<^verbatim>\<open>background\<close> argument of \<^verbatim>\<open>rasterizeSvg\<close>.\<close>

record Background =
  color :: string
  transparent :: bool

text \<open>
  The 2D context's drawing calls made by \<^verbatim>\<open>rasterizeSvg\<close>, in the order they are
  issued: \<^verbatim>\<open>fillRect(x, y, w, h)\<close> with the fill style in force, and
  \<^verbatim>\<open>drawImage(img, x, y, w, h)\<close>. The image type \<open>'i\<close> is the platform's.
\<close>

datatype 'i draw_op =
    FillRect string number number number number
  | DrawImage 'i number number number number

text \<open>
  The canvas: its \<^verbatim>\<open>width\<close> and \<^verbatim>\<open>height\<close> and the drawing calls received so
  far. A new canvas has received none: every pixel of it is transparent.
\<close>

record 'i canvas = Size +
  ops :: "'i draw_op list"

text \<open>
  \<^verbatim>\<open>canvas.width\<close> and \<^verbatim>\<open>canvas.height\<close> are attributes of type \<^verbatim>\<open>unsigned long\<close>
  that reflect content attributes. A number assigned to one is first converted to a
  32-bit unsigned integer: NaN and the infinities give 0, every other number is truncated
  towards zero and taken modulo \<open>2\<^sup>3\<^sup>2\<close>. A result above 2147483647 is then replaced by
  the default of the attribute, 300 for the width and 150 for the height. The value
  read back, as lines 141 and 146 do, is the stored one.
\<close>

definition toUnsignedLong :: "number \<Rightarrow> nat" where
  "toUnsignedLong n =
     (case n of
        Finite x \<Rightarrow> nat ((if 0 \<le> x then \<lfloor>x\<rfloor> else \<lceil>x\<rceil>) mod 2 ^ 32)
      | _ \<Rightarrow> 0)"

definition canvasDimension :: "nat \<Rightarrow> number \<Rightarrow> number" where
  "canvasDimension dflt n =
     (let u = toUnsignedLong n in Finite (of_nat (if u \<le> 2147483647 then u else dflt)))"

text \<open>
  Lines 131-133: \<^verbatim>\<open>canvas.width = Math.max(1, Math.round(outSize.width))\<close> and the same
  for the height.
\<close>

definition createCanvas :: "Size \<Rightarrow> 'i canvas" where
  "createCanvas outSize =
     \<lparr>width = canvasDimension 300 (Math_max (Finite 1) (Math_round (width outSize))),
      height = canvasDimension 150 (Math_max (Finite 1) (Math_round (height outSize))),
      ops = []\<rparr>"

text \<open>
  Lines 139-142: the background is painted when the format is jpeg or transparency is off;
  the fill style is \<^verbatim>\<open>background.color || "#ffffff"\<close> (the empty string is falsy).
\<close>

definition fillBackground :: "RasterFormat \<Rightarrow> Background \<Rightarrow> 'i canvas \<Rightarrow> 'i canvas" where
  "fillBackground format background cv =
     (if format = Jpeg \<or> \<not> transparent background then
        (let fillStyle = (if color background \<noteq> [] then color background else ''#ffffff'')
         in cv\<lparr>ops := ops cv @ [FillRect fillStyle (Finite 0) (Finite 0) (width cv) (height cv)]\<rparr>)
      else cv)"

text \<open>Line 146: \<^verbatim>\<open>ctx.drawImage(img, 0, 0, canvas.width, canvas.height)\<close>.\<close>

definition drawImage :: "'i \<Rightarrow> 'i canvas \<Rightarrow> 'i canvas" where
  "drawImage img cv =
     cv\<lparr>ops := ops cv @ [DrawImage img (Finite 0) (Finite 0) (width cv) (height cv)]\<rparr>"

section \<open>JavaScript strings\<close>

text \<open>
  A JavaScript string is a sequence of UTF-16 code units. The names of the items and the
  values of the attributes are modelled as a \<^typ>\<open>string\<close>: a \<^typ>\<open>char\<close> is the code
  unit of that value, which covers the strings whose code units are all below 256 (ASCII
  and Latin-1). The character classes below are the ECMAScript ones restricted to that
  range, given by code-unit value. The markup that is encoded into a data URL is modelled
  with its 16-bit code units, further down.
\<close>

text \<open>
  \<^verbatim>\<open>\s\<close> in a regular expression, and what \<^verbatim>\<open>trim\<close> strips: tab, line feed,
  vertical tab, form feed, carriage return, space and the no-break space.
\<close>

definition isWhiteSpace :: "char \<Rightarrow> bool" where
  "isWhiteSpace c = (let n = of_char c :: nat in (9 \<le> n \<and> n \<le> 13) \<or> n = 32 \<or> n = 160)"

text \<open>\<^verbatim>\<open>[A-Z]\<close>, \<^verbatim>\<open>[a-z]\<close> and \<^verbatim>\<open>[0-9]\<close>.\<close>

definition isUpperAZ :: "char \<Rightarrow> bool" where
  "isUpperAZ c = (let n = of_char c :: nat in 65 \<le> n \<and> n \<le> 90)"

definition isLowerAZ :: "char \<Rightarrow> bool" where
  "isLowerAZ c = (let n = of_char c :: nat in 97 \<le> n \<and> n \<le> 122)"

definition isDigit :: "char \<Rightarrow> bool" where
  "isDigit c = (let n = of_char c :: nat in 48 \<le> n \<and> n \<le> 57)"

text \<open>\<^verbatim>\<open>String.prototype.trim\<close>.\<close>

definition trim :: "string \<Rightarrow> string" where
  "trim s = rev (dropWhile isWhiteSpace (rev (dropWhile isWhiteSpace s)))"

text \<open>
  \<^verbatim>\<open>s.split(/\s+/)\<close>: the pieces of \<open>s\<close> between the maximal runs of white space. A
  string without white space (the empty one too) is the single piece; a run at the
  start or at the end leaves an empty piece there.
\<close>

function split_ws :: "string \<Rightarrow> string list" where
  "split_ws s =
     (case dropWhile (\<lambda>c. \<not> isWhiteSpace c) s of
        [] \<Rightarrow> [s]
      | r # rs \<Rightarrow> takeWhile (\<lambda>c. \<not> isWhiteSpace c) s # split_ws (dropWhile isWhiteSpace rs))"
  by pat_completeness auto
termination
proof (relation "measure length")
  show "wf (measure length)" by simp
next
  fix s :: string and r rs
  assume "dropWhile (\<lambda>c. \<not> isWhiteSpace c) s = r # rs"
  then have "Suc (length rs) \<le> length s"
    using length_dropWhile_le [of "\<lambda>c. \<not> isWhiteSpace c" s] by simp
  moreover have "length (dropWhile isWhiteSpace rs) \<le> length rs"
    by (rule length_dropWhile_le)
  ultimately show "(dropWhile isWhiteSpace rs, s) \<in> measure length" by simp
qed

declare split_ws.simps [simp del]

text \<open>\<^verbatim>\<open>s.includes(pat)\<close>: \<open>pat\<close> occurs in \<open>s\<close> at some position.\<close>

fun includes_str :: "'a list \<Rightarrow> 'a list \<Rightarrow> bool" where
  "includes_str [] pat = (pat = [])"
| "includes_str (c # cs) pat = (take (length pat) (c # cs) = pat \<or> includes_str cs pat)"

text \<open>
  \<^verbatim>\<open>s.replace(/pat/g, rep)\<close> for a pattern that is a fixed, non-empty text: every
  occurrence, found from left to right without overlap, is replaced.
\<close>

fun replaceAll :: "'a list \<Rightarrow> 'a list \<Rightarrow> 'a list \<Rightarrow> 'a list" where
  "replaceAll pat rep [] = []"
| "replaceAll pat rep (c # cs) =
     (if pat \<noteq> [] \<and> take (length pat) (c # cs) = pat
      then rep @ replaceAll pat rep (drop (length pat) (c # cs))
      else c # replaceAll pat rep cs)"

text \<open>
  \<^verbatim>\<open>s.toLowerCase()\<close> on one code unit below 256: \<^verbatim>\<open>A-Z\<close> and the Latin-1 capitals
  (\<^verbatim>\<open>U+00C0\<close> to \<^verbatim>\<open>U+00DE\<close> without the multiplication sign \<^verbatim>\<open>U+00D7\<close>) move up by
  32; every other code unit is unchanged.
\<close>

definition toLowerChar :: "char \<Rightarrow> char" where
  "toLowerChar c =
     (let n = of_char c :: nat
      in if (65 \<le> n \<and> n \<le> 90) \<or> (192 \<le> n \<and> n \<le> 222 \<and> n \<noteq> 215)
         then char_of (n + 32) else c)"

definition toLowerCase :: "string \<Rightarrow> string" where
  "toLowerCase s = map toLowerChar s"

text \<open>
  The markup that \<^verbatim>\<open>svgToDataUrl\<close> encodes is kept with all its 16-bit code units,
  since \<^verbatim>\<open>encodeURIComponent\<close> depends on the surrogates in it. \<open>js\<close> is the JavaScript
  string of a text of characters below 256.
\<close>

type_synonym utf16 = "16 word list"

definition js :: "string \<Rightarrow> utf16" where
  "js s = map of_char s"

text \<open>
  \<^verbatim>\<open>String(n)\<close> as a template literal renders a number with the shortest digits that
  read back as the same double. For a whole number of magnitude up to \<open>2\<^sup>5\<^sup>3\<close>, where every
  whole number is a double, these are its decimal digits; the special values are rendered
  by name. The rendering of the other finite values (fractions, and the whole numbers
  above \<open>2\<^sup>5\<^sup>3\<close>, whose digits are cut short and padded with zeros or written with an
  exponent) depends on the double itself and is the parameter \<open>showFraction\<close>.
\<close>

fun showNat :: "nat \<Rightarrow> string" where
  "showNat n =
     (if n < 10 then [''0123456789'' ! n]
      else showNat (n div 10) @ [''0123456789'' ! (n mod 10)])"

declare showNat.simps [simp del]

definition numberToString :: "(real \<Rightarrow> string) \<Rightarrow> number \<Rightarrow> string" where
  "numberToString showFraction n =
     (case n of
        NaN \<Rightarrow> ''NaN''
      | Infinity \<Rightarrow> ''Infinity''
      | NegInfinity \<Rightarrow> ''-Infinity''
      | Finite x \<Rightarrow>
          if of_int \<lfloor>x\<rfloor> = x \<and> \<bar>x\<bar> \<le> 9007199254740992
          then (if x < 0 then ''-'' else []) @ showNat (nat \<bar>\<lfloor>x\<rfloor>\<bar>)
          else showFraction x)"

section \<open>The intrinsic size of an SVG document\<close>

text \<open>
  The root element that \<^verbatim>\<open>DOMParser.parseFromString\<close> hands back, as far as
  \<^verbatim>\<open>getSvgIntrinsicSize\<close> reads it: its name and its attributes.
  \<^verbatim>\<open>getAttribute\<close> is \<^verbatim>\<open>null\<close> for an attribute that is not there.
\<close>

record element =
  tagName :: string
  attributes :: "(string \<times> string) list"

definition getAttribute :: "element \<Rightarrow> string \<Rightarrow> string option" where
  "getAttribute el a = map_of (attributes el) a"

text \<open>What the code can throw, or reject a promise with.\<close>

datatype dom_step = CreateElement | AppendChild | Click | Remove

datatype js_error =
    ParserThrew
  | URIError
  | ImageLoadFailed
  | ContextUnavailable
  | ToBlobFailed
  | DomFailure dom_step

text \<open>
  Lines 71-78. \<open>Number\<close> is the engine's conversion of a string to a number. The
  attribute must be there and not be empty (\<^verbatim>\<open>if (vb)\<close>); \<^verbatim>\<open>const [, , w, h] = parts\<close>
  reads the pieces at index 2 and 3.
\<close>

definition viewBoxSize :: "(string \<Rightarrow> number) \<Rightarrow> string option \<Rightarrow> Size option" where
  "viewBoxSize Number vb =
     (case vb of
        None \<Rightarrow> None
      | Some v \<Rightarrow>
          if v = [] then None
          else
            (let parts = map Number (split_ws (trim v))
             in if length parts = 4 \<and> list_all (\<lambda>n. n \<noteq> NaN) parts
                then (let w = parts ! 2; h = parts ! 3
                      in if num_gt w (Finite 0) \<and> num_gt h (Finite 0)
                         then Some \<lparr>width = w, height = h\<rparr> else None)
                else None))"

text \<open>
  \<^verbatim>\<open>s.replace(/[a-z%]+$/i, "")\<close>: the letters and percent signs that end the string
  are removed.
\<close>

definition isUnitChar :: "char \<Rightarrow> bool" where
  "isUnitChar c = (isUpperAZ c \<or> isLowerAZ c \<or> c = CHR ''%'')"

definition stripUnit :: "string \<Rightarrow> string" where
  "stripUnit s = rev (dropWhile isUnitChar (rev s))"

text \<open>
  Lines 83-84, \<^verbatim>\<open>parseLen\<close>: NaN for a missing or empty attribute, otherwise the
  engine's \<open>parseFloat\<close> of the attribute without its unit.
\<close>

definition parseLen :: "(string \<Rightarrow> number) \<Rightarrow> string option \<Rightarrow> number" where
  "parseLen parseFloat s =
     (case s of
        None \<Rightarrow> NaN
      | Some t \<Rightarrow> if t = [] then NaN else parseFloat (stripUnit t))"

text \<open>
  Lines 66-94. The parser is the platform's: it returns the root element, or throws.
  Whatever is thrown inside the \<^verbatim>\<open>try\<close> block ends in \<^verbatim>\<open>return null\<close>.
\<close>

definition getSvgIntrinsicSize ::
  "(string \<Rightarrow> js_error + element) \<Rightarrow> (string \<Rightarrow> number) \<Rightarrow> (string \<Rightarrow> number) \<Rightarrow>
   string \<Rightarrow> Size option" where
  "getSvgIntrinsicSize parseFromString Number parseFloat svgMarkup =
     (case parseFromString svgMarkup of
        Inl e \<Rightarrow> None
      | Inr svgEl \<Rightarrow>
          (case viewBoxSize Number (getAttribute svgEl ''viewBox'') of
             Some sz \<Rightarrow> Some sz
           | None \<Rightarrow>
               (let w = parseLen parseFloat (getAttribute svgEl ''width'');
                    h = parseLen parseFloat (getAttribute svgEl ''height'')
                in if num_gt w (Finite 0) \<and> num_gt h (Finite 0)
                   then Some \<lparr>width = w, height = h\<rparr> else None)))"

text \<open>
  Line 69 reads \<^verbatim>\<open>doc.documentElement\<close>, the root of the document that the parser hands
  back. \<^verbatim>\<open>DOMParser.parseFromString\<close> hands back a document for markup that is not well
  formed as well, and reports the error inside it: Chromium and WebKit keep the tree built
  up to the error and add a \<^verbatim>\<open>parsererror\<close> element as the first child of its root,
  Firefox hands back a document whose root is a \<^verbatim>\<open>parsererror\<close> element.
  \<^verbatim>\<open>getSvgIntrinsicSize\<close> reads the root only.
\<close>

datatype node = Node string "(string \<times> string) list" "node list"

fun nodeName :: "node \<Rightarrow> string" where
  "nodeName (Node tag attrs children) = tag"

fun documentElement :: "node \<Rightarrow> element" where
  "documentElement (Node tag attrs children) = \<lparr>tagName = tag, attributes = attrs\<rparr>"

fun reportsParseError :: "node \<Rightarrow> bool" where
  "reportsParseError (Node tag attrs children) =
     (tag = ''parsererror'' \<or> ''parsererror'' \<in> set (map nodeName children))"

definition documentParser :: "node \<Rightarrow> string \<Rightarrow> js_error + element" where
  "documentParser doc svgMarkup = Inr (documentElement doc)"

section \<open>The data URL of an SVG document\<close>

text \<open>\<^verbatim>\<open>\w\<close>, which decides the word boundary \<^verbatim>\<open>\b\<close>: a code unit of \<^verbatim>\<open>[A-Za-z0-9_]\<close>.\<close>

definition isWordUnit :: "16 word \<Rightarrow> bool" where
  "isWordUnit u =
     (let n = unat u
      in (65 \<le> n \<and> n \<le> 90) \<or> (97 \<le> n \<and> n \<le> 122) \<or> (48 \<le> n \<and> n \<le> 57) \<or> n = 95)"

text \<open>
  \<^verbatim>\<open>svg.replace(/<svg\b/, '<svg xmlns="http://www.w3.org/2000/svg"')\<close>: the first place
  where \<^verbatim>\<open><svg\<close> is followed by a word boundary (the end of the text, or a code unit
  that is no word character) gets the declaration; without such a place the text is
  unchanged.
\<close>

definition svgTagHere :: "utf16 \<Rightarrow> bool" where
  "svgTagHere s =
     (take 4 s = js ''<svg'' \<and> (case drop 4 s of [] \<Rightarrow> True | d # ds \<Rightarrow> \<not> isWordUnit d))"

fun replaceSvgTag :: "utf16 \<Rightarrow> utf16" where
  "replaceSvgTag [] = []"
| "replaceSvgTag (c # cs) =
     (if svgTagHere (c # cs)
      then js ''<svg xmlns=\"http://www.w3.org/2000/svg\"'' @ drop 4 (c # cs)
      else c # replaceSvgTag cs)"

text \<open>Lines 98-103.\<close>

definition ensureXmlns :: "utf16 \<Rightarrow> utf16" where
  "ensureXmlns svg = (if \<not> includes_str svg (js ''xmlns='') then replaceSvgTag svg else svg)"

text \<open>
  \<^verbatim>\<open>encodeURIComponent\<close> reads the string from left to right. A code unit that is a
  letter, a digit or one of \<^verbatim>\<open>- _ . ! ~ * ' ( )\<close> is copied. At any other code unit the
  code point at that place is read: a code unit that is no surrogate is its own code
  point; a leading surrogate (\<^verbatim>\<open>D800\<close> to \<^verbatim>\<open>DBFF\<close>) that is followed by a trailing one
  (\<^verbatim>\<open>DC00\<close> to \<^verbatim>\<open>DFFF\<close>) makes one code point above \<^verbatim>\<open>FFFF\<close> with it; a trailing
  surrogate on its own, and a leading surrogate that no trailing one follows, make the
  function throw a \<^verbatim>\<open>URIError\<close>. The code point is written as the escapes \<^verbatim>\<open>%XX\<close>
  (upper-case hexadecimal) of the one to four bytes of its UTF-8 encoding. The result
  holds characters below 128 only and is kept as a \<^typ>\<open>string\<close>.
\<close>

definition isUnreserved :: "nat \<Rightarrow> bool" where
  "isUnreserved n =
     ((65 \<le> n \<and> n \<le> 90) \<or> (97 \<le> n \<and> n \<le> 122) \<or> (48 \<le> n \<and> n \<le> 57) \<or>
      n \<in> set [45, 95, 46, 33, 126, 42, 39, 40, 41])"

definition isLeadSurrogate :: "16 word \<Rightarrow> bool" where
  "isLeadSurrogate u = (0xD800 \<le> unat u \<and> unat u \<le> 0xDBFF)"

definition isTrailSurrogate :: "16 word \<Rightarrow> bool" where
  "isTrailSurrogate u = (0xDC00 \<le> unat u \<and> unat u \<le> 0xDFFF)"

definition pairCodePoint :: "16 word \<Rightarrow> 16 word \<Rightarrow> nat" where
  "pairCodePoint u v = (unat u - 0xD800) * 0x400 + (unat v - 0xDC00) + 0x10000"

definition hexDigit :: "nat \<Rightarrow> char" where
  "hexDigit k = ''0123456789ABCDEF'' ! k"

definition pct :: "nat \<Rightarrow> string" where
  "pct b = [CHR ''%'', hexDigit (b div 16), hexDigit (b mod 16)]"

definition utf8Bytes :: "nat \<Rightarrow> nat list" where
  "utf8Bytes cp =
     (if cp < 0x80 then [cp]
      else if cp < 0x800 then [0xC0 + cp div 64, 0x80 + cp mod 64]
      else if cp < 0x10000 then [0xE0 + cp div 4096, 0x80 + cp div 64 mod 64, 0x80 + cp mod 64]
      else [0xF0 + cp div 262144, 0x80 + cp div 4096 mod 64, 0x80 + cp div 64 mod 64,
            0x80 + cp mod 64])"

text \<open>The output so far is lost when a later code unit makes the function throw.\<close>

fun prepend :: "string \<Rightarrow> js_error + string \<Rightarrow> js_error + string" where
  "prepend s (Inl e) = Inl e"
| "prepend s (Inr t) = Inr (s @ t)"

fun encodeURIComponent :: "utf16 \<Rightarrow> js_error + string" where
  "encodeURIComponent [] = Inr []"
| "encodeURIComponent (u # us) =
     (if isUnreserved (unat u) then prepend [char_of (unat u)] (encodeURIComponent us)
      else if isTrailSurrogate u then Inl URIError
      else if isLeadSurrogate u then
        (case us of
           [] \<Rightarrow> Inl URIError
         | v # vs \<Rightarrow>
             if isTrailSurrogate v
             then prepend (concat (map pct (utf8Bytes (pairCodePoint u v)))) (encodeURIComponent vs)
             else Inl URIError)
      else prepend (concat (map pct (utf8Bytes (unat u)))) (encodeURIComponent us))"

text \<open>Lines 105-111: the six replacements, in the order of the source.\<close>

definition compactEscapes :: "string \<Rightarrow> string" where
  "compactEscapes s =
     replaceAll ''%22'' [CHR 0x27]
       (replaceAll ''%2F'' ''/''
         (replaceAll ''%3A'' '':''
           (replaceAll ''%3D'' ''=''
             (replaceAll ''%20'' '' ''
               (replaceAll ''%0A'' [] s)))))"

text \<open>
  Lines 104-113: what the function does with the text that the namespace step has left.
  What \<^verbatim>\<open>encodeURIComponent\<close> throws ends the function.
\<close>

definition dataUrlOf :: "utf16 \<Rightarrow> js_error + string" where
  "dataUrlOf svg =
     (case encodeURIComponent svg of
        Inl e \<Rightarrow> Inl e
      | Inr encoded \<Rightarrow> Inr (''data:image/svg+xml;charset=utf-8,'' @ compactEscapes encoded))"

text \<open>Lines 96-114.\<close>

definition svgToDataUrl :: "utf16 \<Rightarrow> js_error + string" where
  "svgToDataUrl svg = dataUrlOf (ensureXmlns svg)"

section \<open>Rasterizing\<close>

text \<open>
  What the browser does for \<^verbatim>\<open>rasterizeSvg\<close>: loading the image of a URL
  (\<^verbatim>\<open>onload\<close> with the image, or \<^verbatim>\<open>onerror\<close>), giving a 2D context for a canvas or
  not, and encoding a canvas to a blob of a MIME type at a quality, or to \<^verbatim>\<open>null\<close>.
\<close>

record ('i, 'b) platform =
  loadImage :: "string \<Rightarrow> 'i option"
  getContext :: "'i canvas \<Rightarrow> bool"
  toBlob :: "'i canvas \<Rightarrow> string \<Rightarrow> number option \<Rightarrow> 'b option"

text \<open>Lines 131-146 between the check of the context and the encoding.\<close>

definition paintCanvas :: "'i \<Rightarrow> RasterFormat \<Rightarrow> Background \<Rightarrow> 'i canvas \<Rightarrow> 'i canvas" where
  "paintCanvas img format background cv = drawImage img (fillBackground format background cv)"

definition mimeType :: "RasterFormat \<Rightarrow> string" where
  "mimeType format = ''image/'' @ (case format of Png \<Rightarrow> ''png'' | Jpeg \<Rightarrow> ''jpeg'')"

text \<open>
  Lines 116-160. A rejected promise is the \<open>Inl\<close> result; what \<^verbatim>\<open>svgToDataUrl\<close> throws
  rejects the promise of the function.
\<close>

definition rasterizeSvg ::
  "('i, 'b) platform \<Rightarrow> utf16 \<Rightarrow> Size \<Rightarrow> RasterFormat \<Rightarrow> Background \<Rightarrow> js_error + 'b" where
  "rasterizeSvg P svgMarkup outSize format background =
     (case svgToDataUrl svgMarkup of
        Inl e \<Rightarrow> Inl e
      | Inr imgUrl \<Rightarrow>
          (case loadImage P imgUrl of
             None \<Rightarrow> Inl ImageLoadFailed
           | Some img \<Rightarrow>
               (let cv = createCanvas outSize
                in if \<not> getContext P cv then Inl ContextUnavailable
                   else
                     (let painted = paintCanvas img format background cv;
                          quality = (if format = Jpeg then Some (Finite (92 / 100)) else None)
                      in case toBlob P painted (mimeType format) quality of
                           None \<Rightarrow> Inl ToBlobFailed
                         | Some b \<Rightarrow> Inr b))))"

section \<open>Downloading\<close>

text \<open>
  The part of the browser that \<^verbatim>\<open>downloadBlob\<close> and \<^verbatim>\<open>handleDownload\<close> change: the
  object URLs that are alive, each with its blob; the counter that names the next one;
  the anchors in the document body; the saves started by a click, as file name and URL;
  the messages shown by \<^verbatim>\<open>alert\<close>.
\<close>

record anchor =
  href :: nat
  download :: string

record 'b browser =
  objectURLs :: "(nat \<times> 'b) list"
  nextURL :: nat
  bodyChildren :: "anchor list"
  saves :: "(string \<times> nat) list"
  alerts :: "string list"

text \<open>\<^verbatim>\<open>URL.createObjectURL(blob)\<close> and \<^verbatim>\<open>URL.revokeObjectURL(url)\<close>.\<close>

definition createObjectURL :: "'b \<Rightarrow> 'b browser \<Rightarrow> nat \<times> 'b browser" where
  "createObjectURL blob w =
     (nextURL w, w\<lparr>objectURLs := (nextURL w, blob) # objectURLs w, nextURL := Suc (nextURL w)\<rparr>)"

definition revokeObjectURL :: "nat \<Rightarrow> 'b browser \<Rightarrow> 'b browser" where
  "revokeObjectURL url w = w\<lparr>objectURLs := filter (\<lambda>(u, b). u \<noteq> url) (objectURLs w)\<rparr>"

text \<open>
  Lines 162-171. The statements run in order; \<open>fails\<close> says which of the DOM calls
  between creating and revoking the URL throws. A statement that throws ends the function
  there, with the browser as the earlier statements left it.
\<close>

definition downloadBlob ::
  "(dom_step \<Rightarrow> bool) \<Rightarrow> 'b \<Rightarrow> string \<Rightarrow> 'b browser \<Rightarrow> (js_error + unit) \<times> 'b browser" where
  "downloadBlob fails blob filename w0 =
     (let (url, w1) = createObjectURL blob w0
      in if fails CreateElement then (Inl (DomFailure CreateElement), w1)
         else
           (let a = \<lparr>href = url, download = filename\<rparr>
            in if fails AppendChild then (Inl (DomFailure AppendChild), w1)
               else
                 (let w2 = w1\<lparr>bodyChildren := bodyChildren w1 @ [a]\<rparr>
                  in if fails Click then (Inl (DomFailure Click), w2)
                     else
                       (let w3 = w2\<lparr>saves := saves w2 @ [(download a, href a)]\<rparr>
                        in if fails Remove then (Inl (DomFailure Remove), w3)
                           else
                             (let w4 = w3\<lparr>bodyChildren := remove1 a (bodyChildren w3)\<rparr>
                              in (Inr (), revokeObjectURL url w4))))))"

section \<open>The card of one gallery item\<close>

record SvgItem =
  item_id :: string
  name :: string
  svg :: utf16
  tags :: "string list"

text \<open>The state variables of \<^verbatim>\<open>Card\<close> (lines 177-190).\<close>

record CardState =
  format :: RasterFormat
  transparent_st :: bool
  bgColor :: string
  lockRatio :: bool
  size_st :: Size



text \<open>Lines 193-197: the effect that runs when the format or the flag has changed.\<close>

definition forceOpaque :: "CardState \<Rightarrow> CardState" where
  "forceOpaque st =
     (if format st = Jpeg \<and> transparent_st st then st\<lparr>transparent_st := False\<rparr> else st)"





text \<open>Lines 221-224: the fourth argument of the call of \<^verbatim>\<open>rasterizeSvg\<close>.\<close>

definition exportBackground :: "CardState \<Rightarrow> Background" where
  "exportBackground st =
     \<lparr>color = bgColor st,
      transparent = (if format st = Png then transparent_st st else False)\<rparr>"

text \<open>
  Lines 225-228, the first part of the file name:
  \<^verbatim>\<open>.replace(/\s+/g, "-")\<close> puts one hyphen for every maximal run of white space,
  \<^verbatim>\<open>.replace(/[^a-z0-9-]/g, "")\<close> keeps the lower-case letters, the digits and the
  hyphen.
\<close>

function hyphenateSpaces :: "string \<Rightarrow> string" where
  "hyphenateSpaces [] = []"
| "hyphenateSpaces (c # cs) =
     (if isWhiteSpace c then CHR ''-'' # hyphenateSpaces (dropWhile isWhiteSpace cs)
      else c # hyphenateSpaces cs)"
  by pat_completeness auto
termination
  by (relation "measure length") (auto simp: length_dropWhile_le le_imp_less_Suc)

definition isSlugChar :: "char \<Rightarrow> bool" where
  "isSlugChar c = (isLowerAZ c \<or> isDigit c \<or> c = CHR ''-'')"

definition slug :: "string \<Rightarrow> string" where
  "slug nm = filter isSlugChar (hyphenateSpaces (toLowerCase nm))"

text \<open>Lines 225-228.\<close>

definition downloadFilename :: "(real \<Rightarrow> string) \<Rightarrow> string \<Rightarrow> Size \<Rightarrow> RasterFormat \<Rightarrow> string" where
  "downloadFilename showFraction nm sz fmt =
     slug nm @ ''-'' @ numberToString showFraction (width sz) @ ''x''
       @ numberToString showFraction (height sz) @ ''.''
       @ (if fmt = Jpeg then ''jpg'' else ''png'')"

text \<open>
  \<^verbatim>\<open>`Gagal mengunduh: ${err?.message || err}`\<close>: the message of an \<^verbatim>\<open>Error\<close> made by
  the code itself; the event of a failed image load has no message and is rendered as an
  object. The message of an error thrown by the engine or the DOM (or its name, when the
  message is empty) is the engine's and is the parameter \<open>engineText\<close>.
\<close>

definition errorText :: "(js_error \<Rightarrow> string) \<Rightarrow> js_error \<Rightarrow> string" where
  "errorText engineText e =
     (case e of
        ContextUnavailable \<Rightarrow> ''Canvas context unavailable''
      | ToBlobFailed \<Rightarrow> ''toBlob failed''
      | ImageLoadFailed \<Rightarrow> ''[object Event]''
      | _ \<Rightarrow> engineText e)"

definition alert :: "string \<Rightarrow> 'b browser \<Rightarrow> 'b browser" where
  "alert msg w = w\<lparr>alerts := alerts w @ [msg]\<rparr>"

text \<open>
  Lines 225-232: what \<^verbatim>\<open>handleDownload\<close> does once the promise of \<^verbatim>\<open>rasterizeSvg\<close> is
  settled, with a blob or with a rejection.
\<close>

definition afterRasterize ::
  "(js_error \<Rightarrow> string) \<Rightarrow> (dom_step \<Rightarrow> bool) \<Rightarrow> (real \<Rightarrow> string) \<Rightarrow> SvgItem \<Rightarrow> CardState \<Rightarrow>
   js_error + 'b \<Rightarrow> 'b browser \<Rightarrow> 'b browser" where
  "afterRasterize engineText fails showFraction item st settled w =
     (case settled of
        Inl err \<Rightarrow> alert (''Gagal mengunduh: '' @ errorText engineText err) w
      | Inr blob \<Rightarrow>
          (let filename = downloadFilename showFraction (name item) (size_st st) (format st)
           in case downloadBlob fails blob filename w of
                (Inl err, w') \<Rightarrow> alert (''Gagal mengunduh: '' @ errorText engineText err) w'
              | (Inr u, w') \<Rightarrow> w'))"

text \<open>
  Lines 219-233, with the function that is called at lines 221-224 as the parameter
  \<open>rasterize\<close>: it is called with the markup of the item, the size, the format, and the
  settings of lines 221-224.
\<close>

definition handleDownloadWith ::
  "(utf16 \<Rightarrow> Size \<Rightarrow> RasterFormat \<Rightarrow> Background \<Rightarrow> js_error + 'b) \<Rightarrow> (js_error \<Rightarrow> string) \<Rightarrow>
   (dom_step \<Rightarrow> bool) \<Rightarrow> (real \<Rightarrow> string) \<Rightarrow> SvgItem \<Rightarrow> CardState \<Rightarrow> 'b browser \<Rightarrow> 'b browser" where
  "handleDownloadWith rasterize engineText fails showFraction item st w =
     afterRasterize engineText fails showFraction item st
       (rasterize (svg item) (size_st st) (format st) (exportBackground st)) w"

text \<open>Lines 219-233: the function called is \<^verbatim>\<open>rasterizeSvg\<close>.\<close>

definition handleDownload ::
  "('i, 'b) platform \<Rightarrow> (js_error \<Rightarrow> string) \<Rightarrow> (dom_step \<Rightarrow> bool) \<Rightarrow> (real \<Rightarrow> string) \<Rightarrow>
   SvgItem \<Rightarrow> CardState \<Rightarrow> 'b browser \<Rightarrow> 'b browser" where
  "handleDownload P engineText fails showFraction item st w =
     handleDownloadWith (rasterizeSvg P) engineText fails showFraction item st w"

section \<open>The specification's own formulations\<close>

text \<open>
  The rounding of the specification, in its words: round half away from zero, applied
  after the floor of 1, \<open>round(max(1, x))\<close>. NaN and the infinities are their own
  rounding.
\<close>

definition round_half_away :: "real \<Rightarrow> real" where
  "round_half_away x = sgn x * of_int \<lfloor>\<bar>x\<bar> + 1 / 2\<rfloor>"

fun spec_round :: "number \<Rightarrow> number" where
  "spec_round (Finite x) = Finite (round_half_away x)"
| "spec_round n = n"

definition spec_surface_dim :: "number \<Rightarrow> number" where
  "spec_surface_dim x = spec_round (Math_max (Finite 1) x)"

text \<open>
  The white-space separated tokens of a text: its maximal runs of characters that are
  not white space, from left to right. \<open>cur\<close> holds the token being read, reversed.
\<close>

fun tokens_from :: "string \<Rightarrow> string \<Rightarrow> string list" where
  "tokens_from cur [] = (if cur = [] then [] else [rev cur])"
| "tokens_from cur (c # cs) =
     (if isWhiteSpace c then (if cur = [] then tokens_from [] cs else rev cur # tokens_from [] cs)
      else tokens_from (c # cur) cs)"

definition spec_tokens :: "string \<Rightarrow> string list" where
  "spec_tokens s = tokens_from [] s"

text \<open>
  The specification's step 2: the bounding-box attribute is there, it has exactly four
  white-space separated tokens \<open>min-x min-y width height\<close>, none of them NaN as a
  number, and width and height are strictly positive; the size is taken from the third
  and the fourth token.
\<close>

definition spec_viewBox :: "(string \<Rightarrow> number) \<Rightarrow> element \<Rightarrow> Size option" where
  "spec_viewBox Number el =
     (case getAttribute el ''viewBox'' of
        None \<Rightarrow> None
      | Some v \<Rightarrow>
          (case spec_tokens v of
             [minx, miny, w, h] \<Rightarrow>
               if Number minx \<noteq> NaN \<and> Number miny \<noteq> NaN \<and> Number w \<noteq> NaN \<and> Number h \<noteq> NaN
                  \<and> num_gt (Number w) (Finite 0) \<and> num_gt (Number h) (Finite 0)
               then Some \<lparr>width = Number w, height = Number h\<rparr> else None
           | _ \<Rightarrow> None))"

text \<open>
  The specification's step 3: both the width and the height attribute are there and not
  empty, and each parses, after its unit suffix is stripped, to a strictly positive
  number.
\<close>

definition spec_lengths :: "(string \<Rightarrow> number) \<Rightarrow> element \<Rightarrow> Size option" where
  "spec_lengths parseFloat el =
     (case (getAttribute el ''width'', getAttribute el ''height'') of
        (Some w, Some h) \<Rightarrow>
          if w \<noteq> [] \<and> h \<noteq> [] \<and> num_gt (parseFloat (stripUnit w)) (Finite 0)
             \<and> num_gt (parseFloat (stripUnit h)) (Finite 0)
          then Some \<lparr>width = parseFloat (stripUnit w), height = parseFloat (stripUnit h)\<rparr>
          else None
      | _ \<Rightarrow> None)"

text \<open>
  A conversion that agrees with \<^verbatim>\<open>Number\<close> on the texts made of decimal digits only
  (the empty text is 0) and gives NaN on every other text. It stands for the engine's
  conversion where a theorem is applied to a concrete document.
\<close>

definition decimalNumber :: "string \<Rightarrow> number" where
  "decimalNumber s =
     (if list_all isDigit s
      then Finite (of_nat (foldl (\<lambda>a c. 10 * a + (of_char c - 48)) 0 s)) else NaN)"

section \<open>The data URL in pieces\<close>

text \<open>
  The code points of a string whose surrogates are all paired; \<open>None\<close> for a string with
  a surrogate that is not.
\<close>

fun codePoints :: "utf16 \<Rightarrow> nat list option" where
  "codePoints [] = Some []"
| "codePoints (u # us) =
     (if isTrailSurrogate u then None
      else if isLeadSurrogate u then
        (case us of
           [] \<Rightarrow> None
         | v # vs \<Rightarrow>
             if isTrailSurrogate v then map_option ((#) (pairCodePoint u v)) (codePoints vs)
             else None)
      else map_option ((#) (unat u)) (codePoints us))"

text \<open>What \<^verbatim>\<open>encodeURIComponent\<close> writes for one code point.\<close>

definition encodePoint :: "nat \<Rightarrow> string" where
  "encodePoint cp = (if isUnreserved cp then [char_of cp] else concat (map pct (utf8Bytes cp)))"

text \<open>
  The pieces that the output of \<^verbatim>\<open>encodeURIComponent\<close> and of the replacements is
  made of: nothing, one character that is not a percent sign, or one escape \<^verbatim>\<open>%XY\<close>.
\<close>

definition escapeToken :: "string \<Rightarrow> bool" where
  "escapeToken t =
     (case t of
        [] \<Rightarrow> True
      | [c] \<Rightarrow> c \<noteq> CHR ''%''
      | [c, x, y] \<Rightarrow> c = CHR ''%'' \<and> x \<noteq> CHR ''%'' \<and> y \<noteq> CHR ''%''
      | _ \<Rightarrow> False)"

text \<open>The pieces of \<^verbatim>\<open>encodeURIComponent\<close> for one code point.\<close>

definition encodeTokens :: "nat \<Rightarrow> string list" where
  "encodeTokens cp = (if isUnreserved cp then [[char_of cp]] else map pct (utf8Bytes cp))"

text \<open>What the six replacements of lines 106-111 make of one piece.\<close>

definition compactToken :: "string \<Rightarrow> string" where
  "compactToken t =
     (if t = ''%0A'' then []
      else if t = ''%20'' then '' ''
      else if t = ''%3D'' then ''=''
      else if t = ''%3A'' then '':''
      else if t = ''%2F'' then ''/''
      else if t = ''%22'' then [CHR 0x27]
      else t)"

text \<open>
  What the data URL holds for one code point of the markup: nothing for a line feed (10),
  an apostrophe for a double quote (34), the character itself for a space (32), \<^verbatim>\<open>=\<close>
  (61), \<^verbatim>\<open>:\<close> (58) and \<^verbatim>\<open>/\<close> (47), and the output of \<^verbatim>\<open>encodeURIComponent\<close> for
  every other code point.
\<close>

definition compactPoint :: "nat \<Rightarrow> string" where
  "compactPoint cp =
     (if cp = 10 then []
      else if cp = 34 then [CHR 0x27]
      else if cp \<in> set [32, 61, 58, 47] then [char_of cp]
      else encodePoint cp)"

text \<open>
  The same in the specification's words: the line feed removed; space, \<^verbatim>\<open>=\<close>, \<^verbatim>\<open>:\<close>,
  \<^verbatim>\<open>/\<close> and the quote character restored to literal form; every other code point
  percent-encoded; the fixed prefix in front.
\<close>

definition spec_compactPoint :: "nat \<Rightarrow> string" where
  "spec_compactPoint cp =
     (if cp = 10 then []
      else if cp \<in> set [32, 61, 58, 47, 34] then [char_of cp]
      else encodePoint cp)"

definition spec_dataUrl :: "nat list \<Rightarrow> string" where
  "spec_dataUrl cps = ''data:image/svg+xml;charset=utf-8,'' @ concat (map spec_compactPoint cps)"

text \<open>
  The opening tag of the root element of markup that starts with its root element: the
  text from the first \<^verbatim>\<open><\<close> (60) up to the next \<^verbatim>\<open>>\<close> (62).
\<close>

definition spec_rootTag :: "utf16 \<Rightarrow> utf16" where
  "spec_rootTag s = takeWhile (\<lambda>c. c \<noteq> 62) (dropWhile (\<lambda>c. c \<noteq> 60) s)"

section \<open>Numbers: basic facts\<close>

lemma Math_max_round_eq_spec:
  "Math_max (Finite 1) (Math_round x) = spec_surface_dim x"
proof (cases x)
  case (Finite r)
  show ?thesis
  proof (cases "1 < r")
    case True
    then have "1 \<le> \<lfloor>r + 1 / 2\<rfloor>" by linarith
    moreover have "1 < \<lfloor>r + 1 / 2\<rfloor> \<or> \<lfloor>r + 1 / 2\<rfloor> = 1" using calculation by linarith
    ultimately show ?thesis using True Finite
      by (auto simp: Math_max_def spec_surface_dim_def round_half_away_def sgn_if abs_if)
  next
    case False
    then have "\<lfloor>r + 1 / 2\<rfloor> \<le> 1" by linarith
    then show ?thesis using False Finite
      by (auto simp: Math_max_def spec_surface_dim_def round_half_away_def sgn_if)
  qed
qed (simp_all add: Math_max_def spec_surface_dim_def round_half_away_def)


lemma Math_max_one_nonzero: "Math_max (Finite 1) x \<noteq> Finite 0"
  by (cases x) (auto simp: Math_max_def)


section \<open>The export settings\<close>

text \<open>
  C2. When the format is jpeg, \<^verbatim>\<open>handleDownload\<close> calls the rasterizer, whatever function
  that is, with the format jpeg and the settings \<open>{color: bgColor, transparent: false}\<close>,
  whatever the transparency flag of the card is: the flag has no influence on the
  settings nor on the whole download, and the effect that follows a change of format
  switches the flag itself off.
\<close>

theorem jpeg_export_opaque:
  "format st = Jpeg \<longrightarrow>
     handleDownloadWith rasterize engineText fails showFraction item st w =
       afterRasterize engineText fails showFraction item st
         (rasterize (svg item) (size_st st) Jpeg \<lparr>color = bgColor st, transparent = False\<rparr>) w \<and>
     handleDownload P engineText fails showFraction item st w =
       afterRasterize engineText fails showFraction item st
         (rasterizeSvg P (svg item) (size_st st) Jpeg
            \<lparr>color = bgColor st, transparent = False\<rparr>) w \<and>
     exportBackground st = \<lparr>color = bgColor st, transparent = False\<rparr> \<and>
     transparent (exportBackground st) = False \<and>
     transparent_st (forceOpaque st) = False \<and>
     exportBackground (st\<lparr>transparent_st := b\<rparr>) = exportBackground st \<and>
     handleDownloadWith rasterize engineText fails showFraction item (st\<lparr>transparent_st := b\<rparr>) w =
       handleDownloadWith rasterize engineText fails showFraction item st w \<and>
     handleDownload P engineText fails showFraction item (st\<lparr>transparent_st := b\<rparr>) w =
       handleDownload P engineText fails showFraction item st w"
  by (simp add: exportBackground_def forceOpaque_def handleDownload_def handleDownloadWith_def
      afterRasterize_def Let_def split: sum.splits prod.splits)

theorem jpeg_export_opaque_witness:
  "format \<lparr>format = Jpeg, transparent_st = True, bgColor = ''#ff0000'', lockRatio = True,
            size_st = \<lparr>width = Finite 1024, height = Finite 683\<rparr>\<rparr> = Jpeg \<and>
   exportBackground \<lparr>format = Jpeg, transparent_st = True, bgColor = ''#ff0000'', lockRatio = True,
            size_st = \<lparr>width = Finite 1024, height = Finite 683\<rparr>\<rparr> =
     \<lparr>color = ''#ff0000'', transparent = False\<rparr> \<and>
   alerts (handleDownloadWith
     (\<lambda>m sz fmt bg. if transparent bg then Inl ToBlobFailed else Inl ContextUnavailable)
     (\<lambda>e. ''engine'') (\<lambda>d. False) (\<lambda>x. [])
     \<lparr>item_id = ''masjid'', name = ''Masjid Siluet'', svg = js ''<svg/>'', tags = []\<rparr>
     \<lparr>format = Jpeg, transparent_st = True, bgColor = ''#ff0000'', lockRatio = True,
      size_st = \<lparr>width = Finite 1024, height = Finite 683\<rparr>\<rparr>
     (\<lparr>objectURLs = [], nextURL = 0, bodyChildren = [], saves = [], alerts = []\<rparr>
        :: string browser)) =
     [''Gagal mengunduh: Canvas context unavailable'']"
proof -
  let ?st = "\<lparr>format = Jpeg, transparent_st = True, bgColor = ''#ff0000'', lockRatio = True,
            size_st = \<lparr>width = Finite 1024, height = Finite 683\<rparr>\<rparr>"
  let ?item = "\<lparr>item_id = ''masjid'', name = ''Masjid Siluet'', svg = js ''<svg/>'', tags = []\<rparr>"
  let ?w = "\<lparr>objectURLs = [], nextURL = 0, bodyChildren = [], saves = [], alerts = []\<rparr>
              :: string browser"
  let ?r = "\<lambda>(m :: utf16) (sz :: Size) (fmt :: RasterFormat) bg.
              if transparent bg then Inl ToBlobFailed else (Inl ContextUnavailable :: js_error + string)"
  let ?P = "\<lparr>loadImage = Some, getContext = (\<lambda>cv. True),
             toBlob = (\<lambda>cv mime q. Some ''bytes'')\<rparr> :: (string, string) platform"
  have f: "format ?st = Jpeg" by simp
  note t = mp [OF jpeg_export_opaque [where st = ?st and rasterize = ?r
        and engineText = "\<lambda>e. ''engine''" and fails = "\<lambda>d. False" and showFraction = "\<lambda>x. []"
        and item = ?item and w = ?w and P = ?P and b = False] f]
  have 1: "exportBackground ?st = \<lparr>color = ''#ff0000'', transparent = False\<rparr>"
    using conjunct1 [OF conjunct2 [OF conjunct2 [OF t]]] by simp
  have "handleDownloadWith ?r (\<lambda>e. ''engine'') (\<lambda>d. False) (\<lambda>x. []) ?item ?st ?w =
      afterRasterize (\<lambda>e. ''engine'') (\<lambda>d. False) (\<lambda>x. []) ?item ?st
        (?r (svg ?item) (size_st ?st) Jpeg \<lparr>color = bgColor ?st, transparent = False\<rparr>) ?w"
    by (rule conjunct1 [OF t])
  then have 2: "alerts (handleDownloadWith ?r (\<lambda>e. ''engine'') (\<lambda>d. False) (\<lambda>x. []) ?item ?st ?w) =
      [''Gagal mengunduh: Canvas context unavailable'']"
    by (simp add: afterRasterize_def errorText_def alert_def)
  show ?thesis by (intro conjI f 1 2)
qed

section \<open>Releasing the object URL\<close>

text \<open>
  C10, as stated, fails: \<^verbatim>\<open>downloadBlob\<close> has no \<^verbatim>\<open>try\<close>/\<^verbatim>\<open>finally\<close>. When
  \<^verbatim>\<open>document.body.appendChild\<close> throws, the function ends there and the object URL
  created for the blob is still alive afterwards.
\<close>

theorem url_kept_when_appendChild_throws:
  "downloadBlob ((=) AppendChild) ''bytes'' ''a-1x1.png''
     \<lparr>objectURLs = [], nextURL = 0, bodyChildren = [], saves = [], alerts = []\<rparr> =
   (Inl (DomFailure AppendChild),
     \<lparr>objectURLs = [(0, ''bytes'')], nextURL = 1, bodyChildren = [], saves = [], alerts = []\<rparr>)"
  by (simp add: downloadBlob_def createObjectURL_def)

text \<open>
  C10, amended. When none of the DOM calls throws, the save is started under the given
  file name and the object URL is revoked at the end of the call: it is not alive
  afterwards. When one of them throws, the call ends with that failure and the URL stays
  alive.
\<close>

theorem url_released_on_normal_path:
  "((\<forall>d. \<not> fails d) \<longrightarrow>
      fst (downloadBlob fails blob filename w) = Inr () \<and>
      nextURL w \<notin> fst ` set (objectURLs (snd (downloadBlob fails blob filename w))) \<and>
      saves (snd (downloadBlob fails blob filename w)) = saves w @ [(filename, nextURL w)]) \<and>
   ((\<exists>d. fails d) \<longrightarrow>
      (\<exists>d. fst (downloadBlob fails blob filename w) = Inl (DomFailure d)) \<and>
      (nextURL w, blob) \<in> set (objectURLs (snd (downloadBlob fails blob filename w))))"
proof (intro conjI impI)
  assume ok: "\<forall>d. \<not> fails d"
  then show "fst (downloadBlob fails blob filename w) = Inr ()"
    by (simp add: downloadBlob_def createObjectURL_def Let_def)
  from ok show "nextURL w \<notin> fst ` set (objectURLs (snd (downloadBlob fails blob filename w)))"
    by (auto simp: downloadBlob_def createObjectURL_def revokeObjectURL_def Let_def)
  from ok show "saves (snd (downloadBlob fails blob filename w)) = saves w @ [(filename, nextURL w)]"
    by (simp add: downloadBlob_def createObjectURL_def revokeObjectURL_def Let_def)
next
  assume "\<exists>d. fails d"
  then obtain d where d: "fails d" ..
  then have some: "fails CreateElement \<or> fails AppendChild \<or> fails Click \<or> fails Remove"
    by (cases d) auto
  then show "\<exists>d. fst (downloadBlob fails blob filename w) = Inl (DomFailure d)"
    by (auto simp: downloadBlob_def createObjectURL_def Let_def)
  from some show "(nextURL w, blob) \<in> set (objectURLs (snd (downloadBlob fails blob filename w)))"
    by (auto simp: downloadBlob_def createObjectURL_def Let_def)
qed

theorem url_released_on_normal_path_witness:
  "(\<forall>d. \<not> (\<lambda>d. False) d) \<and>
   downloadBlob (\<lambda>d. False) ''bytes'' ''a-1x1.png''
     \<lparr>objectURLs = [], nextURL = 0, bodyChildren = [], saves = [], alerts = []\<rparr> =
   (Inr (),
     \<lparr>objectURLs = [], nextURL = 1, bodyChildren = [], saves = [(''a-1x1.png'', 0)], alerts = []\<rparr>) \<and>
   (\<exists>d. ((=) Click) d) \<and>
   (0, ''bytes'') \<in> set (objectURLs (snd (downloadBlob ((=) Click) ''bytes'' ''a-1x1.png''
     \<lparr>objectURLs = [], nextURL = 0, bodyChildren = [], saves = [], alerts = []\<rparr>)))"
  using url_released_on_normal_path [of "\<lambda>d. False" "''bytes''" "''a-1x1.png''"
          "\<lparr>objectURLs = [], nextURL = 0, bodyChildren = [], saves = [], alerts = []\<rparr>"]
        url_released_on_normal_path [of "(=) Click" "''bytes''" "''a-1x1.png''"
          "\<lparr>objectURLs = [], nextURL = 0, bodyChildren = [], saves = [], alerts = []\<rparr>"]
  by (simp add: downloadBlob_def createObjectURL_def revokeObjectURL_def)

section \<open>The size of the export\<close>

















section \<open>Splitting the bounding box into tokens\<close>

lemma tokens_from_nonws:
  "\<forall>c\<in>set t. \<not> isWhiteSpace c \<Longrightarrow> tokens_from cur (t @ rest) = tokens_from (rev t @ cur) rest"
  by (induction t arbitrary: cur) auto

lemma tokens_from_all_ws:
  "\<forall>c\<in>set r. isWhiteSpace c \<Longrightarrow> tokens_from cur r = (if cur = [] then [] else [rev cur])"
  by (induction r arbitrary: cur) auto

lemma tokens_from_trailing_ws:
  "\<forall>c\<in>set r. isWhiteSpace c \<Longrightarrow> tokens_from cur (s @ r) = tokens_from cur s"
  by (induction s arbitrary: cur) (auto simp: tokens_from_all_ws)

lemma spec_tokens_leading_ws: "spec_tokens (dropWhile isWhiteSpace s) = spec_tokens s"
  by (induction s) (auto simp: spec_tokens_def)

lemma spec_tokens_unfold:
  "spec_tokens s =
     (case dropWhile (\<lambda>c. \<not> isWhiteSpace c) s of
        [] \<Rightarrow> (if s = [] then [] else [s])
      | r # rs \<Rightarrow>
          (if takeWhile (\<lambda>c. \<not> isWhiteSpace c) s = [] then spec_tokens rs
           else takeWhile (\<lambda>c. \<not> isWhiteSpace c) s # spec_tokens rs))"
proof -
  let ?t = "takeWhile (\<lambda>c. \<not> isWhiteSpace c) s"
  let ?d = "dropWhile (\<lambda>c. \<not> isWhiteSpace c) s"
  have s: "s = ?t @ ?d" by simp
  have t: "\<forall>c\<in>set ?t. \<not> isWhiteSpace c" by (auto dest: set_takeWhileD)
  have "spec_tokens s = tokens_from [] (?t @ ?d)" by (simp add: spec_tokens_def)
  also have "\<dots> = tokens_from (rev ?t) ?d" using tokens_from_nonws [OF t, of "[]" ?d] by simp
  finally have e: "spec_tokens s = tokens_from (rev ?t) ?d" .
  show ?thesis
  proof (cases ?d)
    case Nil
    then have ts: "?t = s" by (simp add: takeWhile_eq_all_conv)
    have "spec_tokens s = tokens_from (rev s) []" by (simp only: e [unfolded Nil ts])
    then show ?thesis by (simp only: Nil list.case tokens_from.simps rev_is_Nil_conv rev_rev_ident)
  next
    case (Cons r rs)
    then have "isWhiteSpace r" using hd_dropWhile [of "\<lambda>c. \<not> isWhiteSpace c" s] by simp
    then show ?thesis using e Cons by (simp add: spec_tokens_def)
  qed
qed

lemma split_ws_trimmed:
  "s \<noteq> [] \<Longrightarrow> \<not> isWhiteSpace (hd s) \<Longrightarrow> \<not> isWhiteSpace (last s) \<Longrightarrow> split_ws s = spec_tokens s"
proof (induction s rule: split_ws.induct)
  case (1 s)
  let ?t = "takeWhile (\<lambda>c. \<not> isWhiteSpace c) s"
  let ?d = "dropWhile (\<lambda>c. \<not> isWhiteSpace c) s"
  show ?case
  proof (cases ?d)
    case Nil
    have "split_ws s = [s]" by (simp only: split_ws.simps [of s] Nil list.case)
    moreover have "spec_tokens s = [s]"
      using "1.prems"(1) by (simp only: spec_tokens_unfold [of s] Nil list.case if_False)
    ultimately show ?thesis by simp
  next
    case (Cons r rs)
    let ?s' = "dropWhile isWhiteSpace rs"
    have r: "isWhiteSpace r" using Cons hd_dropWhile [of "\<lambda>c. \<not> isWhiteSpace c" s] by simp
    have t: "?t \<noteq> []" using "1.prems" by (cases s) auto
    have s: "s = ?t @ r # rs" using Cons takeWhile_dropWhile_id [of "\<lambda>c. \<not> isWhiteSpace c" s] by simp
    have rs: "rs = takeWhile isWhiteSpace rs @ ?s'" by simp
    have ne: "?s' \<noteq> []"
    proof
      assume "?s' = []"
      then have "\<forall>c\<in>set rs. isWhiteSpace c" by (simp add: dropWhile_eq_Nil_conv)
      moreover have "last (r # rs) \<in> set (r # rs)" by (rule last_in_set) simp
      ultimately have "isWhiteSpace (last (r # rs))" using r by auto
      moreover have "last s = last (r # rs)" using s by (metis last_appendR list.distinct(1))
      ultimately show False using "1.prems" by simp
    qed
    have hd: "\<not> isWhiteSpace (hd ?s')" using ne hd_dropWhile by blast
    have "last s = last (r # rs)" using s by (metis last_appendR list.distinct(1))
    also have "\<dots> = last rs" using ne by (cases rs) auto
    also have "\<dots> = last ?s'" using ne rs by (metis last_appendR)
    finally have last: "\<not> isWhiteSpace (last ?s')" using "1.prems" by simp
    have "split_ws ?s' = spec_tokens ?s'" using "1.IH" [OF Cons ne hd last] .
    then have "split_ws s = ?t # spec_tokens rs"
      using Cons by (simp add: split_ws.simps [of s] spec_tokens_leading_ws)
    then show ?thesis using Cons t by (simp add: spec_tokens_unfold [of s])
  qed
qed

lemma trim_decompose:
  "dropWhile isWhiteSpace s = trim s @ rev (takeWhile isWhiteSpace (rev (dropWhile isWhiteSpace s)))"
proof -
  let ?d = "dropWhile isWhiteSpace s"
  have "rev (takeWhile isWhiteSpace (rev ?d) @ dropWhile isWhiteSpace (rev ?d)) = rev (rev ?d)"
    by (simp only: takeWhile_dropWhile_id)
  then have "rev (dropWhile isWhiteSpace (rev ?d)) @ rev (takeWhile isWhiteSpace (rev ?d)) = ?d"
    by (simp only: rev_append rev_rev_ident)
  then show ?thesis by (simp only: trim_def)
qed

lemma spec_tokens_trim: "spec_tokens (trim s) = spec_tokens s"
proof -
  let ?r = "rev (takeWhile isWhiteSpace (rev (dropWhile isWhiteSpace s)))"
  have "\<forall>c\<in>set ?r. isWhiteSpace c" by (auto dest: set_takeWhileD)
  then have "spec_tokens (trim s @ ?r) = spec_tokens (trim s)"
    by (simp add: spec_tokens_def tokens_from_trailing_ws)
  then show ?thesis using trim_decompose [of s] spec_tokens_leading_ws [of s] by simp
qed

lemma trim_ends:
  assumes "trim s \<noteq> []"
  shows "\<not> isWhiteSpace (hd (trim s))" and "\<not> isWhiteSpace (last (trim s))"
proof -
  let ?d = "dropWhile isWhiteSpace s"
  have d: "?d \<noteq> []"
  proof
    assume "?d = []"
    then have "trim s = []" by (simp add: trim_def del: dropWhile_eq_Nil_conv)
    then show False using assms by simp
  qed
  have "hd (trim s) = hd ?d" using assms trim_decompose [of s] by (metis hd_append2)
  then show "\<not> isWhiteSpace (hd (trim s))" using d hd_dropWhile by metis
  have "dropWhile isWhiteSpace (rev ?d) \<noteq> []" using assms by (simp add: trim_def)
  then have "\<not> isWhiteSpace (hd (dropWhile isWhiteSpace (rev ?d)))" using hd_dropWhile by blast
  then show "\<not> isWhiteSpace (last (trim s))" using assms by (simp add: trim_def last_rev)
qed

lemma split_ws_trim:
  "split_ws (trim s) = (if spec_tokens s = [] then [[]] else spec_tokens s)"
proof (cases "trim s = []")
  case True
  then have "spec_tokens s = []" using spec_tokens_trim [of s] by (simp add: spec_tokens_def)
  then show ?thesis using True by (simp add: split_ws.simps [of "[]"])
next
  case False
  then have "split_ws (trim s) = spec_tokens s"
    using split_ws_trimmed trim_ends spec_tokens_trim by metis
  moreover have "takeWhile (\<lambda>c. \<not> isWhiteSpace c) (trim s) \<noteq> []"
    using False trim_ends(1) [OF False] by (cases "trim s") auto
  then have "spec_tokens s \<noteq> []"
    using False spec_tokens_trim [of s] spec_tokens_unfold [of "trim s"]
    by (auto split: list.splits if_splits)
  ultimately show ?thesis by simp
qed

section \<open>The intrinsic size: the code against the specification's steps\<close>

lemma length4_shape: "length xs = 4 \<Longrightarrow> \<exists>a b c d. xs = [a, b, c, d]"
  by (auto simp: numeral_eq_Suc length_Suc_conv)

lemma viewBoxSize_spec:
  "viewBoxSize Number (getAttribute el ''viewBox'') = spec_viewBox Number el"
proof (cases "getAttribute el ''viewBox''")
  case None
  then show ?thesis by (simp add: viewBoxSize_def spec_viewBox_def)
next
  case (Some v)
  show ?thesis
  proof (cases "length (spec_tokens v) = 4")
    case True
    then obtain a b c d where t: "spec_tokens v = [a, b, c, d]" using length4_shape by blast
    then have "v \<noteq> []" by (auto simp: spec_tokens_def)
    then show ?thesis using Some t
      by (simp add: viewBoxSize_def spec_viewBox_def split_ws_trim Let_def)
  next
    case False
    have "length (split_ws (trim v)) \<noteq> 4" using False by (simp add: split_ws_trim)
    then have "viewBoxSize Number (Some v) = None" by (simp add: viewBoxSize_def Let_def)
    moreover have "spec_viewBox Number el = None"
      using False Some by (auto simp: spec_viewBox_def split: list.splits)
    ultimately show ?thesis using Some by simp
  qed
qed

lemma getSvgIntrinsicSize_spec:
  "getSvgIntrinsicSize parseFromString Number parseFloat markup =
     (case parseFromString markup of
        Inl e \<Rightarrow> None
      | Inr el \<Rightarrow>
          (case spec_viewBox Number el of
             Some sz \<Rightarrow> Some sz
           | None \<Rightarrow> spec_lengths parseFloat el))"
proof (cases "parseFromString markup")
  case (Inl e)
  then show ?thesis by (simp add: getSvgIntrinsicSize_def)
next
  case (Inr el)
  have "(let w = parseLen parseFloat (getAttribute el ''width'');
             h = parseLen parseFloat (getAttribute el ''height'')
         in if num_gt w (Finite 0) \<and> num_gt h (Finite 0)
            then Some \<lparr>width = w, height = h\<rparr> else None) = spec_lengths parseFloat el"
    by (cases "getAttribute el ''width''"; cases "getAttribute el ''height''")
      (auto simp: spec_lengths_def parseLen_def num_gt_def Let_def)
  then show ?thesis using Inr
    by (simp add: getSvgIntrinsicSize_def viewBoxSize_spec split: option.splits)
qed

text \<open>
  C3. When the root element of the parsed markup carries a \<^verbatim>\<open>viewBox\<close> attribute of
  exactly four white-space separated tokens, none of which converts to NaN, with the
  third and the fourth strictly positive, \<^verbatim>\<open>getSvgIntrinsicSize\<close> returns the numbers
  of the third and the fourth token as width and height, whatever the \<^verbatim>\<open>width\<close> and
  \<^verbatim>\<open>height\<close> attributes are.
\<close>

theorem viewBox_size_returned:
  "parseFromString markup = Inr el \<and> getAttribute el ''viewBox'' = Some vb \<and>
   spec_tokens vb = [minx, miny, w, h] \<and>
   Number minx \<noteq> NaN \<and> Number miny \<noteq> NaN \<and> Number w \<noteq> NaN \<and> Number h \<noteq> NaN \<and>
   num_gt (Number w) (Finite 0) \<and> num_gt (Number h) (Finite 0) \<longrightarrow>
     getSvgIntrinsicSize parseFromString Number parseFloat markup =
       Some \<lparr>width = Number w, height = Number h\<rparr>"
  by (simp add: getSvgIntrinsicSize_spec spec_viewBox_def)

theorem viewBox_size_returned_witness:
  "getAttribute \<lparr>tagName = ''svg'',
       attributes = [(''width'', ''10''), (''viewBox'', '' 0 0  240 160 ''), (''height'', ''20px'')]\<rparr>
     ''viewBox'' = Some '' 0 0  240 160 '' \<and>
   spec_tokens '' 0 0  240 160 '' = [''0'', ''0'', ''240'', ''160''] \<and>
   decimalNumber ''0'' \<noteq> NaN \<and> decimalNumber ''240'' = Finite 240 \<and> decimalNumber ''160'' = Finite 160 \<and>
   num_gt (decimalNumber ''240'') (Finite 0) \<and> num_gt (decimalNumber ''160'') (Finite 0) \<and>
   getSvgIntrinsicSize
     (\<lambda>m. Inr \<lparr>tagName = ''svg'',
       attributes = [(''width'', ''10''), (''viewBox'', '' 0 0  240 160 ''), (''height'', ''20px'')]\<rparr>)
     decimalNumber decimalNumber ''<svg/>'' =
     Some \<lparr>width = Finite 240, height = Finite 160\<rparr>"
proof -
  have t: "spec_tokens '' 0 0  240 160 '' = [''0'', ''0'', ''240'', ''160'']"
    by (simp add: spec_tokens_def isWhiteSpace_def)
  have n: "decimalNumber ''0'' = Finite 0" "decimalNumber ''240'' = Finite 240"
    "decimalNumber ''160'' = Finite 160"
    by (simp_all add: decimalNumber_def isDigit_def)
  show ?thesis
    using viewBox_size_returned [where parseFromString = "\<lambda>m. Inr \<lparr>tagName = ''svg'',
       attributes = [(''width'', ''10''), (''viewBox'', '' 0 0  240 160 ''), (''height'', ''20px'')]\<rparr>"
      and el = "\<lparr>tagName = ''svg'',
       attributes = [(''width'', ''10''), (''viewBox'', '' 0 0  240 160 ''), (''height'', ''20px'')]\<rparr>"
      and vb = "'' 0 0  240 160 ''" and minx = "''0''" and miny = "''0''" and w = "''240''"
      and h = "''160''" and Number = decimalNumber and parseFloat = decimalNumber
      and markup = "''<svg/>''"] t n
    by (simp add: getAttribute_def num_gt_def)
qed

text \<open>
  C7, as stated, fails for malformed markup: the code never looks for the parser's error
  report. For \<^verbatim>\<open><svg viewBox="0 0 10 20"><g></svg>\<close>, whose \<^verbatim>\<open>g\<close> element is not closed,
  Chromium's parser hands back the root \<^verbatim>\<open>svg\<close> with its \<^verbatim>\<open>viewBox\<close> and a
  \<^verbatim>\<open>parsererror\<close> child, and \<^verbatim>\<open>getSvgIntrinsicSize\<close> returns 10 by 20.
\<close>

theorem malformed_markup_sized:
  "reportsParseError
     (Node ''svg'' [(''viewBox'', ''0 0 10 20'')] [Node ''parsererror'' [] [], Node ''g'' [] []]) \<and>
   getSvgIntrinsicSize
     (documentParser
        (Node ''svg'' [(''viewBox'', ''0 0 10 20'')] [Node ''parsererror'' [] [], Node ''g'' [] []]))
     decimalNumber decimalNumber ''<svg viewBox=\"0 0 10 20\"><g></svg>'' =
     Some \<lparr>width = Finite 10, height = Finite 20\<rparr>"
  by (simp add: getSvgIntrinsicSize_def documentParser_def viewBoxSize_def getAttribute_def
      trim_def split_ws.simps isWhiteSpace_def decimalNumber_def isDigit_def num_gt_def Let_def)

text \<open>
  C7, amended. \<^verbatim>\<open>getSvgIntrinsicSize\<close> is total: what the parser throws is caught. Its
  result is \<^verbatim>\<open>null\<close> when the parser throws; otherwise it is the size of the bounding box
  of the root that the parser hands back, if that is well formed and strictly positive;
  otherwise the size of the root's width and height attributes, if they parse, after
  their unit suffix is stripped, to strictly positive numbers; otherwise \<^verbatim>\<open>null\<close>. So it
  returns \<^verbatim>\<open>null\<close> exactly when the parser throws or the root lacks both, as an error
  document with a \<^verbatim>\<open>parsererror\<close> root does, which has no attributes. A document that
  reports a parse error is read like any other.
\<close>

theorem no_size_gives_null:
  "getSvgIntrinsicSize parseFromString Number parseFloat markup =
     (case parseFromString markup of
        Inl e \<Rightarrow> None
      | Inr el \<Rightarrow>
          (case spec_viewBox Number el of
             Some sz \<Rightarrow> Some sz
           | None \<Rightarrow> spec_lengths parseFloat el)) \<and>
   (parseFromString markup = Inl e \<longrightarrow>
      getSvgIntrinsicSize parseFromString Number parseFloat markup = None) \<and>
   (parseFromString markup = Inr el \<and> getAttribute el ''viewBox'' = None \<and>
    getAttribute el ''width'' = None \<and> getAttribute el ''height'' = None \<longrightarrow>
      getSvgIntrinsicSize parseFromString Number parseFloat markup = None) \<and>
   (parseFromString markup = Inr el \<and> spec_viewBox Number el = None \<and>
    spec_lengths parseFloat el = None \<longrightarrow>
      getSvgIntrinsicSize parseFromString Number parseFloat markup = None) \<and>
   (getSvgIntrinsicSize parseFromString Number parseFloat markup = None \<longrightarrow>
      (\<exists>e. parseFromString markup = Inl e) \<or>
      (\<exists>el. parseFromString markup = Inr el \<and> spec_viewBox Number el = None \<and>
         spec_lengths parseFloat el = None)) \<and>
   (reportsParseError doc \<longrightarrow>
      getSvgIntrinsicSize (documentParser doc) Number parseFloat markup =
        (case spec_viewBox Number (documentElement doc) of
           Some sz \<Rightarrow> Some sz
         | None \<Rightarrow> spec_lengths parseFloat (documentElement doc)))"
proof (intro conjI impI)
  show "getSvgIntrinsicSize parseFromString Number parseFloat markup =
     (case parseFromString markup of
        Inl e \<Rightarrow> None
      | Inr el \<Rightarrow>
          (case spec_viewBox Number el of
             Some sz \<Rightarrow> Some sz
           | None \<Rightarrow> spec_lengths parseFloat el))"
    by (rule getSvgIntrinsicSize_spec)
next
  assume "parseFromString markup = Inl e"
  then show "getSvgIntrinsicSize parseFromString Number parseFloat markup = None"
    by (simp add: getSvgIntrinsicSize_spec)
next
  assume "parseFromString markup = Inr el \<and> getAttribute el ''viewBox'' = None \<and>
    getAttribute el ''width'' = None \<and> getAttribute el ''height'' = None"
  then show "getSvgIntrinsicSize parseFromString Number parseFloat markup = None"
    by (simp add: getSvgIntrinsicSize_spec spec_viewBox_def spec_lengths_def)
next
  assume "parseFromString markup = Inr el \<and> spec_viewBox Number el = None \<and>
    spec_lengths parseFloat el = None"
  then show "getSvgIntrinsicSize parseFromString Number parseFloat markup = None"
    by (simp add: getSvgIntrinsicSize_spec)
next
  assume "getSvgIntrinsicSize parseFromString Number parseFloat markup = None"
  then show "(\<exists>e. parseFromString markup = Inl e) \<or>
      (\<exists>el. parseFromString markup = Inr el \<and> spec_viewBox Number el = None \<and>
         spec_lengths parseFloat el = None)"
    by (cases "parseFromString markup")
      (auto simp: getSvgIntrinsicSize_spec split: option.splits)
next
  show "getSvgIntrinsicSize (documentParser doc) Number parseFloat markup =
        (case spec_viewBox Number (documentElement doc) of
           Some sz \<Rightarrow> Some sz
         | None \<Rightarrow> spec_lengths parseFloat (documentElement doc))"
    by (simp add: getSvgIntrinsicSize_spec documentParser_def)
qed

theorem no_size_gives_null_witness:
  "getSvgIntrinsicSize (\<lambda>m. Inl ParserThrew) decimalNumber decimalNumber ''<svg'' = None \<and>
   reportsParseError (Node ''parsererror'' [] []) \<and>
   getSvgIntrinsicSize (documentParser (Node ''parsererror'' [] []))
     decimalNumber decimalNumber ''<svg'' = None \<and>
   spec_viewBox decimalNumber
     \<lparr>tagName = ''svg'', attributes = [(''viewBox'', ''0 0 240''), (''width'', ''0px'')]\<rparr> = None \<and>
   spec_lengths decimalNumber
     \<lparr>tagName = ''svg'', attributes = [(''viewBox'', ''0 0 240''), (''width'', ''0px'')]\<rparr> = None \<and>
   getSvgIntrinsicSize
     (\<lambda>m. Inr \<lparr>tagName = ''svg'', attributes = [(''viewBox'', ''0 0 240''), (''width'', ''0px'')]\<rparr>)
     decimalNumber decimalNumber ''<svg viewBox=\"0 0 240\" width=\"0px\"/>'' = None \<and>
   (\<exists>el. (\<lambda>m. Inr \<lparr>tagName = ''svg'',
              attributes = [(''viewBox'', ''0 0 240''), (''width'', ''0px'')]\<rparr>)
           ''<svg viewBox=\"0 0 240\" width=\"0px\"/>'' = (Inr el :: js_error + element) \<and>
         spec_viewBox decimalNumber el = None \<and> spec_lengths decimalNumber el = None)"
proof -
  let ?el = "\<lparr>tagName = ''svg'', attributes = [(''viewBox'', ''0 0 240''), (''width'', ''0px'')]\<rparr>"
  let ?err = "\<lparr>tagName = ''parsererror'', attributes = []\<rparr>"
  have v: "spec_viewBox decimalNumber ?el = None"
    by (simp add: spec_viewBox_def getAttribute_def spec_tokens_def isWhiteSpace_def)
  have l: "spec_lengths decimalNumber ?el = None"
    by (simp add: spec_lengths_def getAttribute_def)
  have n: "getAttribute ?err a = None" for a
    by (simp add: getAttribute_def)
  have m: "spec_viewBox decimalNumber ?err = None" "spec_lengths decimalNumber ?err = None"
    by (simp_all add: spec_viewBox_def spec_lengths_def getAttribute_def)
  have d: "documentParser (Node ''parsererror'' [] []) ''<svg'' = Inr ?err"
    "documentElement (Node ''parsererror'' [] []) = ?err"
    "reportsParseError (Node ''parsererror'' [] [])"
    by (simp_all add: documentParser_def)
  have 1: "getSvgIntrinsicSize (\<lambda>m. Inl ParserThrew) decimalNumber decimalNumber ''<svg'' = None"
    using no_size_gives_null [where parseFromString = "\<lambda>m. Inl ParserThrew" and e = ParserThrew
        and Number = decimalNumber and parseFloat = decimalNumber and markup = "''<svg''"
        and el = ?err and doc = "Node ''parsererror'' [] []"]
    by simp
  have 2: "getSvgIntrinsicSize (documentParser (Node ''parsererror'' [] []))
     decimalNumber decimalNumber ''<svg'' = None"
    using no_size_gives_null [where parseFromString = "documentParser (Node ''parsererror'' [] [])"
        and e = ParserThrew and el = ?err and doc = "Node ''parsererror'' [] []"
        and Number = decimalNumber and parseFloat = decimalNumber and markup = "''<svg''"] n m d
    by simp
  have 3: "getSvgIntrinsicSize (\<lambda>m. Inr ?el) decimalNumber decimalNumber
      ''<svg viewBox=\"0 0 240\" width=\"0px\"/>'' = None"
    using no_size_gives_null [where parseFromString = "\<lambda>m. Inr ?el" and el = ?el
        and e = ParserThrew and doc = "Node ''parsererror'' [] []"
        and Number = decimalNumber and parseFloat = decimalNumber
        and markup = "''<svg viewBox=\"0 0 240\" width=\"0px\"/>''"] v l
    by simp
  show ?thesis using 1 2 3 v l d by simp
qed

section \<open>The name of the downloaded file\<close>
















section \<open>The data URL, code point by code point\<close>

lemma escapeToken_cases:
  "escapeToken t \<longleftrightarrow>
     t = [] \<or> (\<exists>c. t = [c] \<and> c \<noteq> CHR ''%'') \<or>
     (\<exists>x y. t = [CHR ''%'', x, y] \<and> x \<noteq> CHR ''%'' \<and> y \<noteq> CHR ''%'')"
  by (auto simp: escapeToken_def split: list.splits)

lemma replaceAll_tokens:
  assumes "\<forall>t\<in>set ts. escapeToken t" "p \<noteq> CHR ''%''" "q \<noteq> CHR ''%''"
  shows "replaceAll [CHR ''%'', p, q] rep (concat ts) =
         concat (map (\<lambda>t. if t = [CHR ''%'', p, q] then rep else t) ts)"
  using assms(1)
proof (induction ts)
  case Nil
  then show ?case by simp
next
  case (Cons t ts)
  then have IH: "replaceAll [CHR ''%'', p, q] rep (concat ts) =
         concat (map (\<lambda>t. if t = [CHR ''%'', p, q] then rep else t) ts)" by simp
  from Cons.prems have "escapeToken t" by simp
  then consider "t = []" | c where "t = [c]" "c \<noteq> CHR ''%''"
    | x y where "t = [CHR ''%'', x, y]" "x \<noteq> CHR ''%''" "y \<noteq> CHR ''%''"
    by (auto simp: escapeToken_cases)
  then show ?case
  proof cases
    case 1
    then show ?thesis using IH by simp
  next
    case 2
    then show ?thesis using IH by simp
  next
    case 3
    then show ?thesis using IH assms(2,3) by auto
  qed
qed

lemma hexDigit_inj: "a < 16 \<Longrightarrow> b < 16 \<Longrightarrow> hexDigit a = hexDigit b \<longleftrightarrow> a = b"
  unfolding hexDigit_def by (rule nth_eq_iff_index_eq) simp_all

lemma hexDigit_not_percent: "a < 16 \<Longrightarrow> hexDigit a \<noteq> CHR ''%''"
proof -
  assume "a < 16"
  then have mem: "''0123456789ABCDEF'' ! a \<in> set ''0123456789ABCDEF''" by (intro nth_mem) simp
  have all: "\<forall>x\<in>set ''0123456789ABCDEF''. x \<noteq> CHR ''%''" by simp
  show ?thesis unfolding hexDigit_def by (rule bspec [OF all mem])
qed

lemma pct_inj: "m < 256 \<Longrightarrow> n < 256 \<Longrightarrow> pct m = pct n \<longleftrightarrow> m = n"
proof -
  assume m: "m < 256" and n: "n < 256"
  then have d: "m div 16 < 16" "n div 16 < 16" "m mod 16 < 16" "n mod 16 < 16" by simp_all
  have "pct m = pct n \<longleftrightarrow> m div 16 = n div 16 \<and> m mod 16 = n mod 16"
    using d by (simp add: pct_def hexDigit_inj)
  also have "\<dots> \<longleftrightarrow> m = n" by (metis div_mult_mod_eq)
  finally show ?thesis .
qed

lemma escapeToken_pct: "n < 256 \<Longrightarrow> escapeToken (pct n)"
  by (simp add: escapeToken_def pct_def hexDigit_not_percent)

lemma utf8Bytes_range:
  assumes "cp < 0x110000" "b \<in> set (utf8Bytes cp)"
  shows "b < 256"
proof -
  have "cp < 0x800 \<Longrightarrow> cp div 64 < 32" "cp < 0x10000 \<Longrightarrow> cp div 4096 < 16"
    "cp div 262144 < 5"
    using assms(1) by (simp_all add: less_mult_imp_div_less)
  moreover have "cp mod 64 < 64" "cp div 64 mod 64 < 64" "cp div 4096 mod 64 < 64" by simp_all
  ultimately show ?thesis using assms(2)
    by (auto simp: utf8Bytes_def split: if_splits)
qed

lemma utf8Bytes_high:
  assumes "128 \<le> cp" "b \<in> set (utf8Bytes cp)"
  shows "128 \<le> b"
  using assms by (auto simp: utf8Bytes_def split: if_splits)

lemma unreserved_small: "isUnreserved n \<Longrightarrow> n < 128 \<and> n \<noteq> 37"
  by (auto simp: isUnreserved_def)

lemma char_of_small: "n < 256 \<Longrightarrow> of_char (char_of n) = (n :: nat)"
  by (simp add: take_bit_eq_mod)

lemma escapeToken_encodeTokens:
  assumes "cp < 0x110000" "t \<in> set (encodeTokens cp)"
  shows "escapeToken t"
proof (cases "isUnreserved cp")
  case True
  then have t: "t = [char_of cp]" using assms(2) by (simp add: encodeTokens_def)
  have s: "cp < 128" "cp \<noteq> 37" using unreserved_small [OF True] by simp_all
  have "char_of cp \<noteq> CHR ''%''"
  proof
    assume "char_of cp = CHR ''%''"
    then have "of_char (char_of cp) = (of_char (CHR ''%'') :: nat)" by simp
    then show False using s by (simp add: take_bit_eq_mod)
  qed
  then show ?thesis using t by (simp add: escapeToken_def)
next
  case False
  then have "t \<in> pct ` set (utf8Bytes cp)" using assms(2) by (simp add: encodeTokens_def)
  then obtain b where b: "b \<in> set (utf8Bytes cp)" "t = pct b" by (rule imageE)
  have "b < 256" using assms(1) b(1) by (rule utf8Bytes_range)
  then show ?thesis using b(2) escapeToken_pct by simp
qed

lemma encodePoint_tokens: "encodePoint cp = concat (encodeTokens cp)"
  by (simp add: encodePoint_def encodeTokens_def)

lemma replaceAll_tokens_step:
  assumes "\<forall>t\<in>set ts. escapeToken t" "p \<noteq> CHR ''%''" "q \<noteq> CHR ''%''" "escapeToken rep"
  shows "replaceAll [CHR ''%'', p, q] rep (concat ts) =
           concat (map (\<lambda>t. if t = [CHR ''%'', p, q] then rep else t) ts) \<and>
         (\<forall>t\<in>set (map (\<lambda>t. if t = [CHR ''%'', p, q] then rep else t) ts). escapeToken t)"
  using replaceAll_tokens [OF assms(1-3), of rep] assms(1,4) by auto

lemma compactToken_compose:
  "(\<lambda>t. if t = ''%22'' then [CHR 0x27] else t)
     ((\<lambda>t. if t = ''%2F'' then ''/'' else t)
       ((\<lambda>t. if t = ''%3A'' then '':'' else t)
         ((\<lambda>t. if t = ''%3D'' then ''='' else t)
           ((\<lambda>t. if t = ''%20'' then '' '' else t)
             ((\<lambda>t. if t = ''%0A'' then [] else t) t))))) = compactToken t"
  by (simp add: compactToken_def)

lemma compactEscapes_tokens:
  assumes "\<forall>t\<in>set ts. escapeToken t"
  shows "compactEscapes (concat ts) = concat (map compactToken ts)"
proof -
  let ?g1 = "\<lambda>t. if t = ''%0A'' then [] else t"
  let ?g2 = "\<lambda>t. if t = ''%20'' then '' '' else t"
  let ?g3 = "\<lambda>t. if t = ''%3D'' then ''='' else t"
  let ?g4 = "\<lambda>t. if t = ''%3A'' then '':'' else t"
  let ?g5 = "\<lambda>t. if t = ''%2F'' then ''/'' else t"
  let ?g6 = "\<lambda>t. if t = ''%22'' then [CHR 0x27] else t"
  have s1: "replaceAll ''%0A'' [] (concat ts) = concat (map ?g1 ts) \<and>
            (\<forall>t\<in>set (map ?g1 ts). escapeToken t)"
    by (rule replaceAll_tokens_step [OF assms]) (simp_all add: escapeToken_def)
  have s2: "replaceAll ''%20'' '' '' (concat (map ?g1 ts)) = concat (map ?g2 (map ?g1 ts)) \<and>
            (\<forall>t\<in>set (map ?g2 (map ?g1 ts)). escapeToken t)"
    by (rule replaceAll_tokens_step [OF conjunct2 [OF s1]]) (simp_all add: escapeToken_def)
  have s3: "replaceAll ''%3D'' ''='' (concat (map ?g2 (map ?g1 ts))) =
              concat (map ?g3 (map ?g2 (map ?g1 ts))) \<and>
            (\<forall>t\<in>set (map ?g3 (map ?g2 (map ?g1 ts))). escapeToken t)"
    by (rule replaceAll_tokens_step [OF conjunct2 [OF s2]]) (simp_all add: escapeToken_def)
  have s4: "replaceAll ''%3A'' '':'' (concat (map ?g3 (map ?g2 (map ?g1 ts)))) =
              concat (map ?g4 (map ?g3 (map ?g2 (map ?g1 ts)))) \<and>
            (\<forall>t\<in>set (map ?g4 (map ?g3 (map ?g2 (map ?g1 ts)))). escapeToken t)"
    by (rule replaceAll_tokens_step [OF conjunct2 [OF s3]]) (simp_all add: escapeToken_def)
  have s5: "replaceAll ''%2F'' ''/'' (concat (map ?g4 (map ?g3 (map ?g2 (map ?g1 ts))))) =
              concat (map ?g5 (map ?g4 (map ?g3 (map ?g2 (map ?g1 ts))))) \<and>
            (\<forall>t\<in>set (map ?g5 (map ?g4 (map ?g3 (map ?g2 (map ?g1 ts))))). escapeToken t)"
    by (rule replaceAll_tokens_step [OF conjunct2 [OF s4]]) (simp_all add: escapeToken_def)
  have s6: "replaceAll ''%22'' [CHR 0x27]
              (concat (map ?g5 (map ?g4 (map ?g3 (map ?g2 (map ?g1 ts)))))) =
              concat (map ?g6 (map ?g5 (map ?g4 (map ?g3 (map ?g2 (map ?g1 ts))))))"
    by (rule conjunct1 [OF replaceAll_tokens_step [OF conjunct2 [OF s5]]])
      (simp_all add: escapeToken_def)
  have "map ?g6 (map ?g5 (map ?g4 (map ?g3 (map ?g2 (map ?g1 ts))))) = map compactToken ts"
    by (simp only: map_map o_def compactToken_compose)
  then show ?thesis
    unfolding compactEscapes_def
    by (simp only: conjunct1 [OF s1] conjunct1 [OF s2] conjunct1 [OF s3] conjunct1 [OF s4]
        conjunct1 [OF s5] s6)
qed

lemma pct_literals:
  "''%0A'' = pct 10" "''%20'' = pct 32" "''%3D'' = pct 61" "''%3A'' = pct 58"
  "''%2F'' = pct 47" "''%22'' = pct 34"
  by (simp_all add: pct_def hexDigit_def)

lemma compactToken_pct:
  assumes "n < 256"
  shows "compactToken (pct n) =
     (if n = 10 then [] else if n = 32 then '' '' else if n = 61 then ''=''
      else if n = 58 then '':'' else if n = 47 then ''/''
      else if n = 34 then [CHR 0x27] else pct n)"
proof -
  have "pct n = pct 10 \<longleftrightarrow> n = 10" "pct n = pct 32 \<longleftrightarrow> n = 32" "pct n = pct 61 \<longleftrightarrow> n = 61"
    "pct n = pct 58 \<longleftrightarrow> n = 58" "pct n = pct 47 \<longleftrightarrow> n = 47" "pct n = pct 34 \<longleftrightarrow> n = 34"
    using assms by (simp_all add: pct_inj)
  then show ?thesis unfolding compactToken_def pct_literals by simp
qed

lemma compactToken_high:
  assumes "128 \<le> b" "b < 256"
  shows "compactToken (pct b) = pct b"
  using assms by (simp add: compactToken_pct)

lemma special_chars:
  "char_of (32 :: nat) = CHR '' ''" "char_of (61 :: nat) = CHR ''=''"
  "char_of (58 :: nat) = CHR '':''" "char_of (47 :: nat) = CHR ''/''"
  by (simp_all add: char_of_eq_iff)

lemma compactPoint_tokens:
  assumes "cp < 0x110000"
  shows "concat (map compactToken (encodeTokens cp)) = compactPoint cp"
proof (cases "isUnreserved cp")
  case True
  then have n: "cp \<noteq> 10" "cp \<noteq> 32" "cp \<noteq> 61" "cp \<noteq> 58" "cp \<noteq> 47" "cp \<noteq> 34"
    by (auto simp: isUnreserved_def)
  then have "compactPoint cp = [char_of cp]"
    using True by (simp add: compactPoint_def encodePoint_def)
  moreover have "compactToken [char_of cp] = [char_of cp]" by (simp add: compactToken_def)
  ultimately show ?thesis using True by (simp add: encodeTokens_def)
next
  case False
  show ?thesis
  proof (cases "cp < 128")
    case True
    then have "cp < 256" by simp
    then show ?thesis using True False
      by (auto simp: encodeTokens_def utf8Bytes_def compactToken_pct compactPoint_def
          encodePoint_def special_chars)
  next
    case high: False
    have h: "map compactToken (map pct (utf8Bytes cp)) = map pct (utf8Bytes cp)"
    proof (simp only: map_map, rule map_cong [OF refl])
      fix b assume b: "b \<in> set (utf8Bytes cp)"
      have "128 \<le> b" "b < 256"
        using utf8Bytes_high [OF _ b] utf8Bytes_range [OF assms b] high by simp_all
      then show "(compactToken \<circ> pct) b = pct b" by (simp add: compactToken_high)
    qed
    have e: "encodeTokens cp = map pct (utf8Bytes cp)"
      using False by (simp add: encodeTokens_def)
    have c: "compactPoint cp = concat (map pct (utf8Bytes cp))"
      using high False by (simp add: compactPoint_def encodePoint_def)
    show ?thesis by (simp only: e c h)
  qed
qed

lemma unat_small: "unat (u :: 16 word) < 65536"
  using unsigned_less [of u, where 'a = nat] by simp

lemma pairCodePoint_range:
  "isLeadSurrogate u \<Longrightarrow> isTrailSurrogate v \<Longrightarrow>
   0x10000 \<le> pairCodePoint u v \<and> pairCodePoint u v < 0x110000"
proof -
  assume u: "isLeadSurrogate u" and v: "isTrailSurrogate v"
  have "unat u - 0xD800 \<le> 1023" using u unfolding isLeadSurrogate_def by arith
  then have "(unat u - 0xD800) * 0x400 \<le> 1023 * 0x400" by (rule mult_le_mono1)
  moreover have "unat v - 0xDC00 \<le> 1023" using v unfolding isTrailSurrogate_def by arith
  ultimately show ?thesis by (simp add: pairCodePoint_def)
qed

lemma codePoints_range: "codePoints s = Some cps \<Longrightarrow> \<forall>cp\<in>set cps. cp < 0x110000"
proof (induction s arbitrary: cps rule: codePoints.induct)
  case 1
  then show ?case by simp
next
  case (2 u us)
  show ?case
  proof (cases "isLeadSurrogate u")
    case True
    then have nt: "\<not> isTrailSurrogate u" by (simp add: isLeadSurrogate_def isTrailSurrogate_def)
    from "2.prems" True nt obtain v vs rest where
      us: "us = v # vs" and v: "isTrailSurrogate v" and r: "codePoints vs = Some rest"
      and cps: "cps = pairCodePoint u v # rest"
      by (auto split: list.splits if_splits)
    have "\<forall>cp\<in>set rest. cp < 0x110000" using "2.IH"(1) [OF nt True us v r] .
    then show ?thesis using cps pairCodePoint_range [OF True v] by simp
  next
    case False
    from "2.prems" False obtain rest where nt: "\<not> isTrailSurrogate u"
      and r: "codePoints us = Some rest" and cps: "cps = unat u # rest"
      by (auto split: if_splits)
    have "\<forall>cp\<in>set rest. cp < 0x110000" using "2.IH"(2) [OF nt False r] .
    then show ?thesis using cps unat_small [of u] by simp
  qed
qed

lemma prepend_case:
  "prepend s r = (case r of Inl e \<Rightarrow> Inl e | Inr t \<Rightarrow> Inr (s @ t))"
  by (cases r) simp_all

lemma encodeURIComponent_points:
  "encodeURIComponent s =
     (case codePoints s of
        None \<Rightarrow> Inl URIError
      | Some cps \<Rightarrow> Inr (concat (map encodePoint cps)))"
proof (induction s rule: encodeURIComponent.induct)
  case 1
  then show ?case by simp
next
  case (2 u us)
  show ?case
  proof (cases "isUnreserved (unat u)")
    case True
    then have "unat u < 128" using unreserved_small by blast
    then have ns: "\<not> isTrailSurrogate u" "\<not> isLeadSurrogate u"
      by (simp_all add: isLeadSurrogate_def isTrailSurrogate_def)
    show ?thesis using True ns "2.IH"(1) [OF True]
      by (simp add: encodePoint_def split: option.splits)
  next
    case False
    show ?thesis
    proof (cases "isTrailSurrogate u")
      case True
      then show ?thesis using False by simp
    next
      case nt: False
      show ?thesis
      proof (cases "isLeadSurrogate u")
        case True
        show ?thesis
        proof (cases us)
          case Nil
          then show ?thesis using False nt True by simp
        next
          case (Cons v vs)
          show ?thesis
          proof (cases "isTrailSurrogate v")
            case tv: True
            have "\<not> isUnreserved (pairCodePoint u v)"
              using pairCodePoint_range [OF True tv] unreserved_small by force
            then show ?thesis using False nt True Cons tv "2.IH"(2) [OF False nt True Cons tv]
              by (simp add: encodePoint_def split: option.splits)
          next
            case False
            then show ?thesis using \<open>\<not> isUnreserved (unat u)\<close> nt True Cons by simp
          qed
        qed
      next
        case nl: False
        show ?thesis using False nt nl "2.IH"(3) [OF False nt nl]
          by (simp add: encodePoint_def split: option.splits)
      qed
    qed
  qed
qed

lemma concat_tokens_points:
  "\<forall>cp\<in>set cps. cp < 0x110000 \<Longrightarrow>
   concat (map compactToken (concat (map encodeTokens cps))) = concat (map compactPoint cps)"
  by (induction cps) (simp_all add: compactPoint_tokens)

lemma compactEscapes_points:
  assumes "\<forall>cp\<in>set cps. cp < 0x110000"
  shows "compactEscapes (concat (map encodePoint cps)) = concat (map compactPoint cps)"
proof -
  have "\<forall>t\<in>set (concat (map encodeTokens cps)). escapeToken t"
    using assms by (auto dest: escapeToken_encodeTokens)
  moreover have "concat (map encodePoint cps) = concat (concat (map encodeTokens cps))"
    by (induction cps) (simp_all add: encodePoint_tokens)
  ultimately show ?thesis
    using assms by (simp only: compactEscapes_tokens concat_tokens_points)
qed

lemma dataUrlOf_points:
  "dataUrlOf s =
     (case codePoints s of
        None \<Rightarrow> Inl URIError
      | Some cps \<Rightarrow> Inr (''data:image/svg+xml;charset=utf-8,'' @ concat (map compactPoint cps)))"
proof (cases "codePoints s")
  case None
  then show ?thesis by (simp add: dataUrlOf_def encodeURIComponent_points)
next
  case (Some cps)
  then have "compactEscapes (concat (map encodePoint cps)) = concat (map compactPoint cps)"
    using codePoints_range compactEscapes_points by blast
  then show ?thesis using Some by (simp add: dataUrlOf_def encodeURIComponent_points)
qed

section \<open>The namespace declaration\<close>

lemma replaceSvgTag_skip:
  "\<forall>i<length pre. \<not> svgTagHere (drop i (pre @ rest)) \<Longrightarrow>
   replaceSvgTag (pre @ rest) = pre @ replaceSvgTag rest"
proof (induction pre)
  case Nil
  then show ?case by simp
next
  case (Cons c pre)
  have "\<not> svgTagHere (c # pre @ rest)" using Cons.prems by force
  moreover have "\<forall>i<length pre. \<not> svgTagHere (drop i (pre @ rest))"
  proof (intro allI impI)
    fix i assume "i < length pre"
    then have "\<not> svgTagHere (drop (Suc i) ((c # pre) @ rest))" using Cons.prems by force
    then show "\<not> svgTagHere (drop i (pre @ rest))" by simp
  qed
  ultimately show ?case using Cons.IH by simp
qed

lemma js_svg: "js ''<svg'' = [60, 115, 118, 103]"
  by (simp add: js_def)

lemma replaceSvgTag_here:
  "post = [] \<or> \<not> isWordUnit (hd post) \<Longrightarrow>
   replaceSvgTag (js ''<svg'' @ post) = js ''<svg xmlns=\"http://www.w3.org/2000/svg\"'' @ post"
  by (cases post) (auto simp: svgTagHere_def js_svg)

lemma replaceSvgTag_none:
  assumes "\<forall>i<length s. \<not> svgTagHere (drop i s)"
  shows "replaceSvgTag s = s"
proof -
  have "\<forall>i<length s. \<not> svgTagHere (drop i (s @ []))" using assms by simp
  then have "replaceSvgTag (s @ []) = s @ replaceSvgTag []" by (rule replaceSvgTag_skip)
  then show ?thesis by simp
qed

lemma first_svgTag:
  assumes "\<exists>i<length s. svgTagHere (drop i s)"
  shows "\<exists>pre post. s = pre @ js ''<svg'' @ post \<and>
           (\<forall>i<length pre. \<not> svgTagHere (drop i s)) \<and>
           (post = [] \<or> \<not> isWordUnit (hd post))"
proof -
  define k where "k = (LEAST i. i < length s \<and> svgTagHere (drop i s))"
  have ex: "\<exists>i. i < length s \<and> svgTagHere (drop i s)" using assms by blast
  have k: "k < length s \<and> svgTagHere (drop k s)"
    unfolding k_def by (rule LeastI_ex [OF ex])
  have least: "\<not> svgTagHere (drop i s)" if "i < k" for i
  proof
    assume "svgTagHere (drop i s)"
    moreover have "i < length s" using that k by simp
    ultimately have "i < length s \<and> svgTagHere (drop i s)" by simp
    then have "k \<le> i" unfolding k_def by (rule Least_le)
    then show False using that by simp
  qed
  define post where "post = drop 4 (drop k s)"
  have t: "take 4 (drop k s) = js ''<svg''" using k by (simp add: svgTagHere_def)
  have "take 4 (drop k s) @ drop 4 (drop k s) = drop k s" by (rule append_take_drop_id)
  then have d: "drop k s = js ''<svg'' @ post" unfolding t post_def by (rule sym)
  have "take k s @ drop k s = s" by (rule append_take_drop_id)
  then have 1: "s = take k s @ js ''<svg'' @ post" unfolding d by (rule sym)
  have 2: "\<forall>i<length (take k s). \<not> svgTagHere (drop i s)" using least by simp
  have "svgTagHere (drop k s)" using k by (rule conjunct2)
  then have "case drop 4 (drop k s) of [] \<Rightarrow> True | d # ds \<Rightarrow> \<not> isWordUnit d"
    unfolding svgTagHere_def by (rule conjunct2)
  then have 3: "post = [] \<or> \<not> isWordUnit (hd post)"
    unfolding post_def by (cases "drop 4 (drop k s)") simp_all
  show ?thesis
    by (rule exI [of _ "take k s"], rule exI [of _ post]) (intro conjI 1 2 3)
qed

lemma codePoints_plain:
  assumes "\<forall>u\<in>set a. \<not> isLeadSurrogate u \<and> \<not> isTrailSurrogate u"
  shows "codePoints (a @ r) = map_option ((@) (map unat a)) (codePoints r)"
  using assms
proof (induction a)
  case Nil
  show ?case by (simp add: option.map_ident)
next
  case (Cons u a)
  then have "codePoints (a @ r) = map_option ((@) (map unat a)) (codePoints r)" by simp
  then show ?case using Cons.prems by (simp add: option.map_comp o_def)
qed

lemma replaceSvgTag_head: "\<exists>t. replaceSvgTag (v # vs) = v # t"
proof (cases "svgTagHere (v # vs)")
  case True
  then have "v = 60" by (simp add: svgTagHere_def js_svg)
  then show ?thesis using True by (simp add: js_def)
next
  case False
  then show ?thesis by simp
qed

lemma plain_literals:
  "\<forall>u\<in>set (js ''<svg''). \<not> isLeadSurrogate u \<and> \<not> isTrailSurrogate u"
  "\<forall>u\<in>set (js ''<svg xmlns=\"http://www.w3.org/2000/svg\"'').
      \<not> isLeadSurrogate u \<and> \<not> isTrailSurrogate u"
  by (simp_all add: js_def isLeadSurrogate_def isTrailSurrogate_def)

lemma svgTagHere_split: "svgTagHere s \<Longrightarrow> s = js ''<svg'' @ drop 4 s"
proof -
  assume "svgTagHere s"
  then have "take 4 s = js ''<svg''" by (simp add: svgTagHere_def)
  then show ?thesis using append_take_drop_id [of 4 s] by simp
qed

lemma codePoints_replaceSvgTag:
  "codePoints (replaceSvgTag s) = None \<longleftrightarrow> codePoints s = None"
proof (induction s rule: codePoints.induct)
  case 1
  show ?case by simp
next
  case (2 u us)
  show ?case
  proof (cases "svgTagHere (u # us)")
    case True
    have "codePoints (u # us) = codePoints (js ''<svg'' @ drop 4 (u # us))"
      by (rule arg_cong [of _ _ codePoints, OF svgTagHere_split [OF True]])
    then have a: "codePoints (u # us) = None \<longleftrightarrow> codePoints (drop 4 (u # us)) = None"
      by (simp only: codePoints_plain [OF plain_literals(1)] option.map_disc_iff)
    have "replaceSvgTag (u # us) =
            js ''<svg xmlns=\"http://www.w3.org/2000/svg\"'' @ drop 4 (u # us)"
      using True by simp
    then have "codePoints (replaceSvgTag (u # us)) = None \<longleftrightarrow>
               codePoints (drop 4 (u # us)) = None"
      by (simp only: codePoints_plain [OF plain_literals(2)] option.map_disc_iff)
    then show ?thesis using a by simp
  next
    case False
    then have r: "replaceSvgTag (u # us) = u # replaceSvgTag us" by simp
    show ?thesis
    proof (cases "isTrailSurrogate u")
      case True
      then show ?thesis using r by simp
    next
      case nt: False
      show ?thesis
      proof (cases "isLeadSurrogate u")
        case True
        show ?thesis
        proof (cases us)
          case Nil
          then show ?thesis using r nt True by simp
        next
          case (Cons v vs)
          obtain t where t: "replaceSvgTag (v # vs) = v # t" using replaceSvgTag_head by blast
          show ?thesis
          proof (cases "isTrailSurrogate v")
            case tv: True
            then have "v \<noteq> 60" by (auto simp: isTrailSurrogate_def)
            then have "\<not> svgTagHere (v # vs)" by (auto simp: svgTagHere_def js_svg)
            then have "replaceSvgTag (v # vs) = v # replaceSvgTag vs" by simp
            then show ?thesis using r nt True Cons tv "2.IH"(1) [OF nt True Cons tv]
              by simp
          next
            case False
            then show ?thesis using r nt True Cons t by simp
          qed
        qed
      next
        case False
        then show ?thesis using r nt "2.IH"(2) [OF nt False] by simp
      qed
    qed
  qed
qed

lemma codePoints_ensureXmlns:
  "codePoints (ensureXmlns s) = None \<longleftrightarrow> codePoints s = None"
  by (simp add: ensureXmlns_def codePoints_replaceSvgTag)

lemma svgToDataUrl_throws:
  "svgToDataUrl s = Inl e \<longleftrightarrow> e = URIError \<and> codePoints s = None"
proof -
  have "svgToDataUrl s = Inl e \<longleftrightarrow> e = URIError \<and> codePoints (ensureXmlns s) = None"
    by (auto simp: svgToDataUrl_def dataUrlOf_points split: option.splits)
  then show ?thesis by (simp add: codePoints_ensureXmlns)
qed

lemmas eval_url =
  svgToDataUrl_def dataUrlOf_points ensureXmlns_def js_def svgTagHere_def isWordUnit_def
  isLeadSurrogate_def isTrailSurrogate_def pairCodePoint_def compactPoint_def encodePoint_def
  isUnreserved_def utf8Bytes_def pct_def hexDigit_def char_of_eq_iff

text \<open>
  C6, as stated, fails: the root element \<^verbatim>\<open><svg>\<close> of this markup declares no
  namespace, but a child does, and the markup is encoded without a declaration on the
  root.
\<close>

theorem nested_namespace_blocks_injection:
  "\<not> includes_str (spec_rootTag (js ''<svg><a xmlns=\"u\"/></svg>'')) (js ''xmlns'') \<and>
   ensureXmlns (js ''<svg><a xmlns=\"u\"/></svg>'') = js ''<svg><a xmlns=\"u\"/></svg>'' \<and>
   svgToDataUrl (js ''<svg><a xmlns=\"u\"/></svg>'') =
     Inr ''data:image/svg+xml;charset=utf-8,%3Csvg%3E%3Ca xmlns='u'/%3E%3C/svg%3E''"
  by (simp add: spec_rootTag_def eval_url)

text \<open>
  C6, amended. Whether the declaration is added is decided on the text: markup that
  contains \<^verbatim>\<open>xmlns=\<close> anywhere is encoded as it is. Markup without that text gets
  \<^verbatim>\<open> xmlns="http://www.w3.org/2000/svg"\<close> right after the first \<^verbatim>\<open><svg\<close> that is
  followed by a word boundary, and is then encoded; without such a place (as in
  \<^verbatim>\<open><svgx/>\<close>) it is encoded as it is. Markup with such a place splits at the first one,
  so every markup falls under one of the three cases. Encoding a text gives the data URL
  of its code points, or throws a \<^verbatim>\<open>URIError\<close> when a surrogate in it is not paired.
\<close>

theorem namespace_injected_textually:
  "(includes_str markup (js ''xmlns='') \<longrightarrow> svgToDataUrl markup = dataUrlOf markup) \<and>
   (\<not> includes_str (pre @ js ''<svg'' @ post) (js ''xmlns='') \<and>
    (\<forall>i<length pre. \<not> svgTagHere (drop i (pre @ js ''<svg'' @ post))) \<and>
    (post = [] \<or> \<not> isWordUnit (hd post)) \<longrightarrow>
      svgToDataUrl (pre @ js ''<svg'' @ post) =
        dataUrlOf (pre @ js ''<svg xmlns=\"http://www.w3.org/2000/svg\"'' @ post)) \<and>
   (\<not> includes_str markup (js ''xmlns='') \<and>
    (\<forall>i<length markup. \<not> svgTagHere (drop i markup)) \<longrightarrow>
      svgToDataUrl markup = dataUrlOf markup) \<and>
   ((\<exists>i<length markup. svgTagHere (drop i markup)) \<longrightarrow>
      (\<exists>p q. markup = p @ js ''<svg'' @ q \<and>
         (\<forall>i<length p. \<not> svgTagHere (drop i markup)) \<and>
         (q = [] \<or> \<not> isWordUnit (hd q)))) \<and>
   dataUrlOf markup =
     (case codePoints markup of
        None \<Rightarrow> Inl URIError
      | Some cps \<Rightarrow>
          Inr (''data:image/svg+xml;charset=utf-8,'' @ concat (map compactPoint cps)))"
proof (intro conjI impI)
  show "dataUrlOf markup =
     (case codePoints markup of
        None \<Rightarrow> Inl URIError
      | Some cps \<Rightarrow>
          Inr (''data:image/svg+xml;charset=utf-8,'' @ concat (map compactPoint cps)))"
    by (rule dataUrlOf_points)
next
  assume "includes_str markup (js ''xmlns='')"
  then show "svgToDataUrl markup = dataUrlOf markup"
    by (simp add: svgToDataUrl_def ensureXmlns_def)
next
  assume a: "\<not> includes_str (pre @ js ''<svg'' @ post) (js ''xmlns='') \<and>
    (\<forall>i<length pre. \<not> svgTagHere (drop i (pre @ js ''<svg'' @ post))) \<and>
    (post = [] \<or> \<not> isWordUnit (hd post))"
  then have "replaceSvgTag (pre @ js ''<svg'' @ post) = pre @ replaceSvgTag (js ''<svg'' @ post)"
    using replaceSvgTag_skip [of pre "js ''<svg'' @ post"] by blast
  also have "\<dots> = pre @ js ''<svg xmlns=\"http://www.w3.org/2000/svg\"'' @ post"
    using a replaceSvgTag_here [of post] by simp
  finally have "ensureXmlns (pre @ js ''<svg'' @ post) =
      pre @ js ''<svg xmlns=\"http://www.w3.org/2000/svg\"'' @ post"
    using a by (simp add: ensureXmlns_def)
  then show "svgToDataUrl (pre @ js ''<svg'' @ post) =
        dataUrlOf (pre @ js ''<svg xmlns=\"http://www.w3.org/2000/svg\"'' @ post)"
    by (simp only: svgToDataUrl_def)
next
  assume "\<not> includes_str markup (js ''xmlns='') \<and>
    (\<forall>i<length markup. \<not> svgTagHere (drop i markup))"
  then show "svgToDataUrl markup = dataUrlOf markup"
    by (simp add: svgToDataUrl_def ensureXmlns_def replaceSvgTag_none)
next
  assume "\<exists>i<length markup. svgTagHere (drop i markup)"
  then show "\<exists>p q. markup = p @ js ''<svg'' @ q \<and>
         (\<forall>i<length p. \<not> svgTagHere (drop i markup)) \<and>
         (q = [] \<or> \<not> isWordUnit (hd q))"
    by (rule first_svgTag)
qed

theorem namespace_injected_textually_witness:
  "includes_str (js ''<svg xmlns=\"u\"/>'') (js ''xmlns='') \<and>
   svgToDataUrl (js ''<svg xmlns=\"u\"/>'') =
     Inr ''data:image/svg+xml;charset=utf-8,%3Csvg xmlns='u'/%3E'' \<and>
   \<not> includes_str (js '' '' @ js ''<svg'' @ js ''/>'') (js ''xmlns='') \<and>
   length (js '' '') = 1 \<and> \<not> svgTagHere (drop 0 (js '' '' @ js ''<svg'' @ js ''/>'')) \<and>
   \<not> isWordUnit (hd (js ''/>'')) \<and>
   svgToDataUrl (js '' <svg/>'') =
     Inr ''data:image/svg+xml;charset=utf-8, %3Csvg xmlns='http://www.w3.org/2000/svg'/%3E'' \<and>
   \<not> includes_str (js ''<svgx/>'') (js ''xmlns='') \<and>
   \<not> list_ex (\<lambda>i. svgTagHere (drop i (js ''<svgx/>''))) [0 ..< length (js ''<svgx/>'')] \<and>
   svgToDataUrl (js ''<svgx/>'') = Inr ''data:image/svg+xml;charset=utf-8,%3Csvgx/%3E'' \<and>
   svgTagHere (drop 1 (js '' <svg/>''))"
proof -
  have h: "includes_str (js ''<svg xmlns=\"u\"/>'') (js ''xmlns='')"
    "\<not> includes_str (js '' '' @ js ''<svg'' @ js ''/>'') (js ''xmlns='')"
    "\<forall>i<length (js '' ''). \<not> svgTagHere (drop i (js '' '' @ js ''<svg'' @ js ''/>''))"
    "\<not> isWordUnit (hd (js ''/>''))"
    "\<not> includes_str (js ''<svgx/>'') (js ''xmlns='')"
    by (simp_all add: js_def svgTagHere_def isWordUnit_def)
  have x: "\<not> list_ex (\<lambda>i. svgTagHere (drop i (js ''<svgx/>''))) [0 ..< length (js ''<svgx/>'')]"
    by (simp add: js_def svgTagHere_def isWordUnit_def upt_rec)
  then have y: "\<forall>i<length (js ''<svgx/>''). \<not> svgTagHere (drop i (js ''<svgx/>''))"
    by (simp add: list_ex_iff)
  have e: "dataUrlOf (js ''<svg xmlns=\"u\"/>'') =
       Inr ''data:image/svg+xml;charset=utf-8,%3Csvg xmlns='u'/%3E''"
    "dataUrlOf (js '' '' @ js ''<svg xmlns=\"http://www.w3.org/2000/svg\"'' @ js ''/>'') =
       Inr ''data:image/svg+xml;charset=utf-8, %3Csvg xmlns='http://www.w3.org/2000/svg'/%3E''"
    "dataUrlOf (js ''<svgx/>'') = Inr ''data:image/svg+xml;charset=utf-8,%3Csvgx/%3E''"
    by (simp_all add: eval_url)
  have j: "js '' <svg/>'' = js '' '' @ js ''<svg'' @ js ''/>''" by (simp add: js_def)
  have t: "svgTagHere (drop 1 (js '' <svg/>''))"
    by (simp add: js_def svgTagHere_def isWordUnit_def)
  have 1: "svgToDataUrl (js ''<svg xmlns=\"u\"/>'') =
       Inr ''data:image/svg+xml;charset=utf-8,%3Csvg xmlns='u'/%3E''"
    using namespace_injected_textually [of "js ''<svg xmlns=\"u\"/>''" "js '' ''" "js ''/>''"]
      h(1) e(1) by simp
  have 2: "svgToDataUrl (js '' <svg/>'') =
     Inr ''data:image/svg+xml;charset=utf-8, %3Csvg xmlns='http://www.w3.org/2000/svg'/%3E''"
    using namespace_injected_textually [of "js ''<svg xmlns=\"u\"/>''" "js '' ''" "js ''/>''"]
      h(2,3,4) e(2) j by simp
  have 3: "svgToDataUrl (js ''<svgx/>'') = Inr ''data:image/svg+xml;charset=utf-8,%3Csvgx/%3E''"
    using namespace_injected_textually [of "js ''<svgx/>''" "js '' ''" "js ''/>''"]
      h(5) y e(3) by simp
  have l: "length (js '' '') = 1" by (simp add: js_def)
  have d: "\<not> svgTagHere (drop 0 (js '' '' @ js ''<svg'' @ js ''/>''))"
    by (simp add: js_def svgTagHere_def)
  show ?thesis by (intro conjI h(1) 1 h(2) l d h(4) 2 h(5) x 3 t)
qed

text \<open>
  C5, as stated, fails: the encoded double quote is not restored to a double quote, it
  becomes an apostrophe; and markup with a surrogate that is not paired gives no data
  URL at all, \<^verbatim>\<open>encodeURIComponent\<close> throws a \<^verbatim>\<open>URIError\<close>.
\<close>

theorem double_quote_becomes_apostrophe:
  "svgToDataUrl (js ''<svg xmlns=\"u\"/>'') =
     Inr ''data:image/svg+xml;charset=utf-8,%3Csvg xmlns='u'/%3E'' \<and>
   codePoints (js ''<svg xmlns=\"u\"/>'') = Some (map of_char ''<svg xmlns=\"u\"/>'') \<and>
   spec_dataUrl (map of_char ''<svg xmlns=\"u\"/>'') =
     ''data:image/svg+xml;charset=utf-8,%3Csvg xmlns=\"u\"/%3E'' \<and>
   svgToDataUrl (js ''<svg xmlns=\"u\"/>'') \<noteq>
     Inr (spec_dataUrl (map of_char ''<svg xmlns=\"u\"/>'')) \<and>
   svgToDataUrl [0xD800] = Inl URIError"
proof -
  have q: "char_of (34 :: nat) = CHR 0x22" by (simp add: char_of_eq_iff)
  show ?thesis by (simp add: eval_url spec_dataUrl_def spec_compactPoint_def q)
qed

text \<open>
  C5, amended. For markup whose surrogates are all paired, the data URL is the fixed
  prefix followed, code point by code point of the markup (after the namespace step),
  by: nothing for a line feed; the character itself for a space, \<^verbatim>\<open>=\<close>, \<^verbatim>\<open>:\<close> and
  \<^verbatim>\<open>/\<close>; an apostrophe for a double quote; the percent-encoding of
  \<^verbatim>\<open>encodeURIComponent\<close> for every other code point. For markup with a surrogate that is
  not paired, and for no other, the function throws a \<^verbatim>\<open>URIError\<close>.
\<close>

theorem data_url_by_character:
  "svgToDataUrl markup =
     (case codePoints (ensureXmlns markup) of
        None \<Rightarrow> Inl URIError
      | Some cps \<Rightarrow>
          Inr (''data:image/svg+xml;charset=utf-8,'' @ concat (map compactPoint cps))) \<and>
   (svgToDataUrl markup = Inl URIError \<longleftrightarrow> codePoints markup = None) \<and>
   (codePoints markup \<noteq> None \<longrightarrow> (\<exists>url. svgToDataUrl markup = Inr url)) \<and>
   compactPoint 10 = [] \<and>
   compactPoint 32 = '' '' \<and> compactPoint 61 = ''='' \<and>
   compactPoint 58 = '':'' \<and> compactPoint 47 = ''/'' \<and>
   compactPoint 34 = [CHR 0x27] \<and>
   (cp \<notin> set [10, 32, 61, 58, 47, 34] \<longrightarrow> compactPoint cp = encodePoint cp)"
proof (intro conjI impI)
  show "svgToDataUrl markup =
     (case codePoints (ensureXmlns markup) of
        None \<Rightarrow> Inl URIError
      | Some cps \<Rightarrow>
          Inr (''data:image/svg+xml;charset=utf-8,'' @ concat (map compactPoint cps)))"
    by (simp add: svgToDataUrl_def dataUrlOf_points)
  show "svgToDataUrl markup = Inl URIError \<longleftrightarrow> codePoints markup = None"
    by (simp add: svgToDataUrl_throws)
  show "compactPoint 10 = []" "compactPoint 32 = '' ''" "compactPoint 61 = ''=''"
    "compactPoint 58 = '':''" "compactPoint 47 = ''/''" "compactPoint 34 = [CHR 0x27]"
    by (simp_all add: compactPoint_def special_chars)
next
  assume "codePoints markup \<noteq> None"
  then have "\<forall>e. svgToDataUrl markup \<noteq> Inl e" by (simp add: svgToDataUrl_throws)
  then show "\<exists>url. svgToDataUrl markup = Inr url" by (cases "svgToDataUrl markup") simp_all
next
  assume "cp \<notin> set [10, 32, 61, 58, 47, 34]"
  then show "compactPoint cp = encodePoint cp" by (simp add: compactPoint_def)
qed

theorem data_url_by_character_witness:
  "(60 :: nat) \<notin> set [10, 32, 61, 58, 47, 34] \<and> compactPoint 60 = ''%3C'' \<and>
   codePoints (js ''<svg xmlns=\"u:\"/>'' @ [0x0A, 0x20AC, 0xD83D, 0xDE00]) \<noteq> None \<and>
   svgToDataUrl (js ''<svg xmlns=\"u:\"/>'' @ [0x0A, 0x20AC, 0xD83D, 0xDE00]) =
     Inr ''data:image/svg+xml;charset=utf-8,%3Csvg xmlns='u:'/%3E%E2%82%AC%F0%9F%98%80'' \<and>
   codePoints (js ''<svg/>'' @ [0xDE00]) = None \<and>
   svgToDataUrl (js ''<svg/>'' @ [0xDE00]) = Inl URIError"
proof -
  have c: "codePoints (js ''<svg xmlns=\"u:\"/>'' @ [0x0A, 0x20AC, 0xD83D, 0xDE00]) \<noteq> None"
    "codePoints (js ''<svg/>'' @ [0xDE00]) = None"
    by (simp_all add: js_def isLeadSurrogate_def isTrailSurrogate_def)
  have e: "encodePoint 60 = ''%3C''"
    by (simp add: encodePoint_def isUnreserved_def utf8Bytes_def pct_def hexDigit_def)
  have 1: "svgToDataUrl (js ''<svg xmlns=\"u:\"/>'' @ [0x0A, 0x20AC, 0xD83D, 0xDE00]) =
     Inr ''data:image/svg+xml;charset=utf-8,%3Csvg xmlns='u:'/%3E%E2%82%AC%F0%9F%98%80''"
    using data_url_by_character
      [of "js ''<svg xmlns=\"u:\"/>'' @ [0x0A, 0x20AC, 0xD83D, 0xDE00]" 60]
    by (simp add: ensureXmlns_def js_def isLeadSurrogate_def isTrailSurrogate_def
        pairCodePoint_def compactPoint_def encodePoint_def isUnreserved_def utf8Bytes_def
        pct_def hexDigit_def char_of_eq_iff)
  have 2: "svgToDataUrl (js ''<svg/>'' @ [0xDE00]) = Inl URIError"
    using conjunct1 [OF conjunct2 [OF data_url_by_character [of "js ''<svg/>'' @ [0xDE00]" 60]]]
      c(2) by simp
  have 3: "compactPoint 60 = ''%3C''"
    using data_url_by_character [of "js ''<svg/>'' @ [0xDE00]" 60] e by simp
  have n: "(60 :: nat) \<notin> set [10, 32, 61, 58, 47, 34]" by simp
  show ?thesis by (intro conjI n 3 c(1) 1 c(2) 2)
qed

section \<open>The rasterizer's surface\<close>

lemma paintCanvas_size:
  "width (paintCanvas img fmt bg cv) = width cv"
  "height (paintCanvas img fmt bg cv) = height cv"
  by (simp_all add: paintCanvas_def drawImage_def fillBackground_def Let_def)

lemma rasterizeSvg_encodes_painted:
  "rasterizeSvg P m sz fmt bg = Inr blob \<Longrightarrow>
   \<exists>url img. svgToDataUrl m = Inr url \<and> loadImage P url = Some img \<and>
     getContext P (createCanvas sz) \<and>
     toBlob P (paintCanvas img fmt bg (createCanvas sz)) (mimeType fmt)
       (if fmt = Jpeg then Some (Finite (92 / 100)) else None) = Some blob"
  by (auto simp: rasterizeSvg_def Let_def split: option.splits if_splits sum.splits)

text \<open>
  C1. The canvas of \<^verbatim>\<open>rasterizeSvg\<close> is new, so it has received no drawing call and is
  transparent. Before the image is drawn it receives one \<^verbatim>\<open>fillRect\<close> over the whole
  surface, \<open>(0, 0, canvas.width, canvas.height)\<close>, in \<^verbatim>\<open>background.color\<close> (or
  \<^verbatim>\<open>#ffffff\<close> when the colour is empty), if and only if the format is jpeg or
  transparency is off; for png with transparency on it receives none, and the image is
  the only thing drawn. The blob that \<^verbatim>\<open>rasterizeSvg\<close> returns is the encoding of the
  canvas painted in this way.
\<close>

theorem background_filled_iff:
  "ops (fillBackground fmt bg (createCanvas sz :: 'i canvas)) =
     (if fmt = Jpeg \<or> \<not> transparent bg
      then [FillRect (if color bg = [] then ''#ffffff'' else color bg) (Finite 0) (Finite 0)
              (width (createCanvas sz :: 'i canvas)) (height (createCanvas sz :: 'i canvas))]
      else []) \<and>
   ops (paintCanvas (img :: 'i) fmt bg (createCanvas sz)) =
     ops (fillBackground fmt bg (createCanvas sz)) @
       [DrawImage img (Finite 0) (Finite 0)
          (width (createCanvas sz :: 'i canvas)) (height (createCanvas sz :: 'i canvas))] \<and>
   (rasterizeSvg (P :: ('i, 'b) platform) m sz fmt bg = Inr blob \<longrightarrow>
      (\<exists>url loaded. svgToDataUrl m = Inr url \<and> loadImage P url = Some loaded \<and>
         toBlob P (paintCanvas loaded fmt bg (createCanvas sz)) (mimeType fmt)
           (if fmt = Jpeg then Some (Finite (92 / 100)) else None) = Some blob))"
proof (intro conjI impI)
  assume a: "rasterizeSvg P m sz fmt bg = Inr blob"
  from rasterizeSvg_encodes_painted [OF a] obtain url loaded where
    "svgToDataUrl m = Inr url" "loadImage P url = Some loaded"
    "toBlob P (paintCanvas loaded fmt bg (createCanvas sz)) (mimeType fmt)
       (if fmt = Jpeg then Some (Finite (92 / 100)) else None) = Some blob"
    by blast
  then show "\<exists>url loaded. svgToDataUrl m = Inr url \<and> loadImage P url = Some loaded \<and>
         toBlob P (paintCanvas loaded fmt bg (createCanvas sz)) (mimeType fmt)
           (if fmt = Jpeg then Some (Finite (92 / 100)) else None) = Some blob"
    by blast
qed (simp_all add: fillBackground_def paintCanvas_def drawImage_def createCanvas_def Let_def)

theorem background_filled_iff_witness:
  "rasterizeSvg \<lparr>loadImage = Some, getContext = (\<lambda>cv. True), toBlob = (\<lambda>cv mime q. Some (ops cv))\<rparr>
     (js ''<svg xmlns=\"u\"/>'') \<lparr>width = Finite 512, height = Finite 341\<rparr> Jpeg
     \<lparr>color = [], transparent = True\<rparr> =
   Inr [FillRect ''#ffffff'' (Finite 0) (Finite 0) (Finite 512) (Finite 341),
        DrawImage ''data:image/svg+xml;charset=utf-8,%3Csvg xmlns='u'/%3E''
          (Finite 0) (Finite 0) (Finite 512) (Finite 341)] \<and>
   ops (paintCanvas ''img'' Png \<lparr>color = ''#ff0000'', transparent = True\<rparr>
          (createCanvas \<lparr>width = Finite 512, height = Finite 341\<rparr>)) =
     [DrawImage ''img'' (Finite 0) (Finite 0) (Finite 512) (Finite 341)] \<and>
   ops (paintCanvas ''img'' Png \<lparr>color = ''#ff0000'', transparent = False\<rparr>
          (createCanvas \<lparr>width = Finite 512, height = Finite 341\<rparr>)) =
     [FillRect ''#ff0000'' (Finite 0) (Finite 0) (Finite 512) (Finite 341),
      DrawImage ''img'' (Finite 0) (Finite 0) (Finite 512) (Finite 341)]"
proof -
  let ?P = "\<lparr>loadImage = Some, getContext = (\<lambda>cv. True),
             toBlob = (\<lambda>cv mime q. Some (ops cv))\<rparr> :: (string, string draw_op list) platform"
  let ?sz = "\<lparr>width = Finite 512, height = Finite 341\<rparr>"
  let ?url = "''data:image/svg+xml;charset=utf-8,%3Csvg xmlns='u'/%3E''"
  let ?bg = "\<lparr>color = [], transparent = True\<rparr>"
  have u: "svgToDataUrl (js ''<svg xmlns=\"u\"/>'') = Inr ?url"
    by (simp add: eval_url)
  have r: "rasterizeSvg ?P (js ''<svg xmlns=\"u\"/>'') ?sz Jpeg ?bg =
      Inr (ops (paintCanvas ?url Jpeg ?bg (createCanvas ?sz)))"
    unfolding rasterizeSvg_def u by simp
  have c: "createCanvas ?sz = \<lparr>width = Finite 512, height = Finite 341, ops = []\<rparr>"
    by (simp add: createCanvas_def Math_max_def canvasDimension_def toUnsignedLong_def)
  have 1: "ops (paintCanvas ?url Jpeg ?bg (createCanvas ?sz)) =
      [FillRect ''#ffffff'' (Finite 0) (Finite 0) (Finite 512) (Finite 341),
       DrawImage ?url (Finite 0) (Finite 0) (Finite 512) (Finite 341)]"
    using background_filled_iff [where fmt = Jpeg and bg = ?bg and sz = ?sz and img = ?url
        and P = ?P] by (simp add: c)
  have 2: "ops (paintCanvas ''img'' Png \<lparr>color = ''#ff0000'', transparent = True\<rparr>
          (createCanvas ?sz)) = [DrawImage ''img'' (Finite 0) (Finite 0) (Finite 512) (Finite 341)]"
    using background_filled_iff [where fmt = Png
        and bg = "\<lparr>color = ''#ff0000'', transparent = True\<rparr>" and sz = ?sz
        and img = "''img''" and P = ?P] by (simp add: c)
  have 3: "ops (paintCanvas ''img'' Png \<lparr>color = ''#ff0000'', transparent = False\<rparr>
          (createCanvas ?sz)) =
     [FillRect ''#ff0000'' (Finite 0) (Finite 0) (Finite 512) (Finite 341),
      DrawImage ''img'' (Finite 0) (Finite 0) (Finite 512) (Finite 341)]"
    using background_filled_iff [where fmt = Png
        and bg = "\<lparr>color = ''#ff0000'', transparent = False\<rparr>" and sz = ?sz
        and img = "''img''" and P = ?P] by (simp add: c)
  show ?thesis unfolding r 1 2 3 by simp
qed

lemma clamp_whole:
  "\<exists>k. Math_max (Finite 1) (Math_round (Finite r)) = Finite (of_int k) \<and> 1 \<le> k \<and>
       (r < 2147483647 + 1 / 2 \<longrightarrow> k \<le> 2147483647)"
proof (cases "1 < \<lfloor>r + 1 / 2\<rfloor>")
  case True
  have "r < 2147483647 + 1 / 2 \<longrightarrow> \<lfloor>r + 1 / 2\<rfloor> \<le> 2147483647" by linarith
  then show ?thesis using True
    by (intro exI [of _ "\<lfloor>r + 1 / 2\<rfloor>"]) (simp add: Math_max_def)
next
  case False
  then have "Math_max (Finite 1) (Math_round (Finite r)) = Finite (of_int 1)"
    by (simp add: Math_max_def)
  then show ?thesis by (intro exI [of _ 1]) simp
qed

lemma canvasDimension_whole:
  assumes "1 \<le> k" "k \<le> 2147483647"
  shows "canvasDimension dflt (Finite (of_int k)) = Finite (of_int k)"
proof -
  have "nat k \<le> 2147483647" using assms by linarith
  then show ?thesis using assms by (simp add: canvasDimension_def toUnsignedLong_def Let_def)
qed

lemma canvasDimension_clamp:
  assumes "num_lt x (Finite (2147483647 + 1 / 2))"
  shows "canvasDimension dflt (Math_max (Finite 1) (Math_round x)) = spec_surface_dim x \<and>
         num_ge (canvasDimension dflt (Math_max (Finite 1) (Math_round x))) (Finite 1)"
proof (cases x)
  case NaN
  then show ?thesis using assms by simp
next
  case NegInfinity
  have "Math_max (Finite 1) (Math_round NegInfinity) = Finite (of_int 1)"
    by (simp add: Math_max_def)
  moreover have "canvasDimension dflt (Finite (of_int 1)) = Finite (of_int 1)"
    by (rule canvasDimension_whole) simp_all
  moreover have "spec_surface_dim NegInfinity = Finite 1"
    using Math_max_round_eq_spec [of NegInfinity] by (simp add: Math_max_def)
  ultimately show ?thesis using NegInfinity by (simp add: num_ge_def)
next
  case (Finite r)
  then have r: "r < 2147483647 + 1 / 2" using assms by simp
  obtain k where k: "Math_max (Finite 1) (Math_round (Finite r)) = Finite (of_int k)" "1 \<le> k"
    "k \<le> 2147483647" using clamp_whole [of r] r by blast
  have c: "canvasDimension dflt (Math_max (Finite 1) (Math_round x)) = Finite (of_int k)"
    unfolding Finite k(1) using k(2,3) by (rule canvasDimension_whole)
  have s: "spec_surface_dim x = Finite (of_int k)"
    unfolding Finite Math_max_round_eq_spec [symmetric] by (rule k(1))
  have g: "num_ge (Finite (of_int k)) (Finite 1)" using k(2) by (simp add: num_ge_def)
  show ?thesis unfolding c s using g by simp
next
  case Infinity
  then show ?thesis using assms by simp
qed

lemma painted_canvas_width:
  assumes "num_lt (width sz) (Finite (2147483647 + 1 / 2))"
  shows "width (paintCanvas img fmt bg (createCanvas sz)) = spec_surface_dim (width sz) \<and>
         num_ge (width (paintCanvas img fmt bg (createCanvas sz))) (Finite 1)"
proof -
  have e: "width (paintCanvas img fmt bg (createCanvas sz)) =
        canvasDimension 300 (Math_max (Finite 1) (Math_round (width sz)))"
    by (simp add: paintCanvas_size createCanvas_def)
  show ?thesis unfolding e by (rule canvasDimension_clamp [OF assms])
qed

lemma painted_canvas_height:
  assumes "num_lt (height sz) (Finite (2147483647 + 1 / 2))"
  shows "height (paintCanvas img fmt bg (createCanvas sz)) = spec_surface_dim (height sz) \<and>
         num_ge (height (paintCanvas img fmt bg (createCanvas sz))) (Finite 1)"
proof -
  have e: "height (paintCanvas img fmt bg (createCanvas sz)) =
        canvasDimension 150 (Math_max (Finite 1) (Math_round (height sz)))"
    by (simp add: paintCanvas_size createCanvas_def)
  show ?thesis unfolding e by (rule canvasDimension_clamp [OF assms])
qed

text \<open>
  C4, as stated, fails: the canvas keeps its dimensions as 32-bit unsigned integers. A
  requested width of 4294967296 (it can be typed into the width field) passes
  \<^verbatim>\<open>Math.max(1, Math.round(_))\<close> unchanged and is stored by the canvas as 0, where the
  formula of the specification gives 4294967296; a requested width of NaN is stored as 0
  as well.
\<close>

theorem huge_width_gives_empty_canvas:
  "width (paintCanvas ''img'' Png \<lparr>color = ''#ffffff'', transparent = True\<rparr>
            (createCanvas \<lparr>width = Finite 4294967296, height = Finite 100\<rparr>)) = Finite 0 \<and>
   spec_surface_dim (Finite 4294967296) = Finite 4294967296 \<and>
   width (paintCanvas ''img'' Png \<lparr>color = ''#ffffff'', transparent = True\<rparr>
            (createCanvas \<lparr>width = NaN, height = Finite 100\<rparr>)) = Finite 0"
  by (simp add: paintCanvas_size createCanvas_def canvasDimension_def toUnsignedLong_def
      Math_max_def Math_max_round_eq_spec [symmetric])

text \<open>
  C4, amended. For a requested dimension below 2147483647.5 (NaN is not), the surface that
  is painted and encoded measures \<open>round(max(1, _))\<close> of it, with the specification's
  rounding half away from zero, which is at least 1. A request for 100.4 by 99.6 gives a
  surface of 100 by 100. The blob that \<^verbatim>\<open>rasterizeSvg\<close> returns is the encoding of a
  canvas of that size. A requested dimension of NaN or Infinity gives the dimension 0.
\<close>

theorem surface_size_rounded:
  "(num_lt (width sz) (Finite (2147483647 + 1 / 2)) \<longrightarrow>
      width (paintCanvas img fmt bg (createCanvas sz)) = spec_surface_dim (width sz) \<and>
      num_ge (width (paintCanvas img fmt bg (createCanvas sz))) (Finite 1)) \<and>
   (num_lt (height sz) (Finite (2147483647 + 1 / 2)) \<longrightarrow>
      height (paintCanvas img fmt bg (createCanvas sz)) = spec_surface_dim (height sz) \<and>
      num_ge (height (paintCanvas img fmt bg (createCanvas sz))) (Finite 1)) \<and>
   (num_lt (width sz) (Finite (2147483647 + 1 / 2)) \<and>
    num_lt (height sz) (Finite (2147483647 + 1 / 2)) \<and>
    rasterizeSvg P m sz fmt bg = Inr blob \<longrightarrow>
      (\<exists>cv q. toBlob P cv (mimeType fmt) q = Some blob \<and>
         width cv = spec_surface_dim (width sz) \<and> height cv = spec_surface_dim (height sz))) \<and>
   spec_surface_dim (Finite (1004 / 10)) = Finite 100 \<and>
   spec_surface_dim (Finite (996 / 10)) = Finite 100 \<and>
   (width sz = NaN \<or> width sz = Infinity \<longrightarrow>
      width (paintCanvas img fmt bg (createCanvas sz)) = Finite 0) \<and>
   (height sz = NaN \<or> height sz = Infinity \<longrightarrow>
      height (paintCanvas img fmt bg (createCanvas sz)) = Finite 0)"
proof (intro conjI impI)
  assume a: "num_lt (width sz) (Finite (2147483647 + 1 / 2)) \<and>
    num_lt (height sz) (Finite (2147483647 + 1 / 2)) \<and> rasterizeSvg P m sz fmt bg = Inr blob"
  from rasterizeSvg_encodes_painted [of P m sz fmt bg blob] a obtain loaded where
    "toBlob P (paintCanvas loaded fmt bg (createCanvas sz)) (mimeType fmt)
       (if fmt = Jpeg then Some (Finite (92 / 100)) else None) = Some blob"
    by blast
  then show "\<exists>cv q. toBlob P cv (mimeType fmt) q = Some blob \<and>
         width cv = spec_surface_dim (width sz) \<and> height cv = spec_surface_dim (height sz)"
    using painted_canvas_width [of sz loaded fmt bg] painted_canvas_height [of sz loaded fmt bg] a
    by blast
next
  show "spec_surface_dim (Finite (1004 / 10)) = Finite 100"
    "spec_surface_dim (Finite (996 / 10)) = Finite 100"
    by (simp_all add: Math_max_round_eq_spec [symmetric] Math_max_def)
next
  assume w: "num_lt (width sz) (Finite (2147483647 + 1 / 2))"
  show "width (paintCanvas img fmt bg (createCanvas sz)) = spec_surface_dim (width sz)"
    "num_ge (width (paintCanvas img fmt bg (createCanvas sz))) (Finite 1)"
    using painted_canvas_width [OF w, of img fmt bg] by blast+
next
  assume h: "num_lt (height sz) (Finite (2147483647 + 1 / 2))"
  show "height (paintCanvas img fmt bg (createCanvas sz)) = spec_surface_dim (height sz)"
    "num_ge (height (paintCanvas img fmt bg (createCanvas sz))) (Finite 1)"
    using painted_canvas_height [OF h, of img fmt bg] by blast+
next
  assume "width sz = NaN \<or> width sz = Infinity"
  then show "width (paintCanvas img fmt bg (createCanvas sz)) = Finite 0"
    by (auto simp: paintCanvas_size createCanvas_def canvasDimension_def toUnsignedLong_def
        Math_max_def)
next
  assume "height sz = NaN \<or> height sz = Infinity"
  then show "height (paintCanvas img fmt bg (createCanvas sz)) = Finite 0"
    by (auto simp: paintCanvas_size createCanvas_def canvasDimension_def toUnsignedLong_def
        Math_max_def)
qed

theorem surface_size_rounded_witness:
  "num_lt (Finite (1004 / 10)) (Finite (2147483647 + 1 / 2)) \<and>
   num_lt (Finite (996 / 10)) (Finite (2147483647 + 1 / 2)) \<and>
   rasterizeSvg
     \<lparr>loadImage = Some, getContext = (\<lambda>cv. True),
      toBlob = (\<lambda>cv mime q. Some (width cv, height cv))\<rparr>
     (js ''<svg xmlns=\"u\"/>'') \<lparr>width = Finite (1004 / 10), height = Finite (996 / 10)\<rparr> Png
     \<lparr>color = ''#ffffff'', transparent = True\<rparr> = Inr (Finite 100, Finite 100) \<and>
   width (paintCanvas ''img'' Png \<lparr>color = ''#ffffff'', transparent = True\<rparr>
            (createCanvas \<lparr>width = Finite (1004 / 10), height = Finite (996 / 10)\<rparr>)) = Finite 100 \<and>
   height (paintCanvas ''img'' Png \<lparr>color = ''#ffffff'', transparent = True\<rparr>
            (createCanvas \<lparr>width = Finite (1004 / 10), height = Finite (996 / 10)\<rparr>)) = Finite 100 \<and>
   num_ge (width (paintCanvas ''img'' Png \<lparr>color = ''#ffffff'', transparent = True\<rparr>
            (createCanvas \<lparr>width = Finite (1004 / 10), height = Finite (996 / 10)\<rparr>))) (Finite 1) \<and>
   width (paintCanvas ''img'' Png \<lparr>color = ''#ffffff'', transparent = True\<rparr>
            (createCanvas \<lparr>width = Infinity, height = NaN\<rparr>)) = Finite 0 \<and>
   height (paintCanvas ''img'' Png \<lparr>color = ''#ffffff'', transparent = True\<rparr>
            (createCanvas \<lparr>width = Infinity, height = NaN\<rparr>)) = Finite 0"
proof -
  let ?P = "\<lparr>loadImage = Some, getContext = (\<lambda>cv. True),
             toBlob = (\<lambda>cv mime q. Some (width cv, height cv))\<rparr>
            :: (string, number \<times> number) platform"
  let ?sz = "\<lparr>width = Finite (1004 / 10), height = Finite (996 / 10)\<rparr>"
  let ?bg = "\<lparr>color = ''#ffffff'', transparent = True\<rparr>"
  have u: "svgToDataUrl (js ''<svg xmlns=\"u\"/>'') =
      Inr ''data:image/svg+xml;charset=utf-8,%3Csvg xmlns='u'/%3E''"
    by (simp add: eval_url)
  have r: "rasterizeSvg ?P (js ''<svg xmlns=\"u\"/>'') ?sz Png ?bg = Inr (Finite 100, Finite 100)"
    unfolding rasterizeSvg_def u
    by (simp add: paintCanvas_size createCanvas_def Math_max_def
        canvasDimension_def toUnsignedLong_def)
  show ?thesis
    using surface_size_rounded [where img = "''img''" and fmt = Png and bg = ?bg and sz = ?sz
        and P = ?P and m = "js ''<svg xmlns=\"u\"/>''" and blob = "(Finite 100, Finite 100)"]
      surface_size_rounded [where img = "''img''" and fmt = Png and bg = ?bg
        and sz = "\<lparr>width = Infinity, height = NaN\<rparr>" and P = ?P] r
    by (simp add: num_ge_def)
qed

end
